theory Spec2Isabelle
  imports Complex_Main "HOL-Library.Sublist" "HOL-Library.Monad_Syntax"
begin

section \<open>JavaScript values and the built-ins the tools call\<close>

text \<open>
  A JavaScript number is a double or one of \<open>NaN\<close>, \<open>Infinity\<close> and
  \<open>-Infinity\<close>. A double is written with the digits that \<open>Number::toString\<close>
  finds for it, the shortest decimal that denotes it: \<open>Finite m e\<close> is \<open>m\<close>
  times ten to the power \<open>e\<close>, and the representation is \<open>canonical\<close> when
  \<open>m\<close> has no trailing zero, so 10 is \<open>Finite 1 1\<close> and -0.5 is
  \<open>Finite (- 5) (- 1)\<close>. The two zeros are one number, \<open>Finite 0 0\<close>: no
  function below tells them apart. Every double is a number of the model; the
  model also has the decimals that are no double, and a statement about all
  numbers covers them too.

  An integer below two to the power 53 is a double, so a double and its
  shortest decimal lie on the same side of every such integer: truncating the
  decimal and comparing it with an integer give what the double gives.
\<close>

datatype number = Finite int int | NaN | PosInfinity | NegInfinity

fun stripZeros :: "nat \<Rightarrow> int \<Rightarrow> nat \<times> int" where
  "stripZeros n e =
     (if n = 0 then (0, 0)
      else if n mod 10 = 0 then stripZeros (n div 10) (e + 1)
      else (n, e))"

declare stripZeros.simps [simp del]

definition fromInt :: "int \<Rightarrow> number" where
  "fromInt i =
     (let (n, e) = stripZeros (nat \<bar>i\<bar>) 0
      in Finite (if i < 0 then - int n else int n) e)"


definition finiteValue :: "int \<Rightarrow> int \<Rightarrow> rat" where
  "finiteValue m e =
     (if 0 \<le> e then of_int (m * 10 ^ nat e) else of_int m / of_int (10 ^ nat (- e)))"

text \<open>
  \<open>Number::lessThan\<close>, where \<open>None\<close> is \<open>undefined\<close>, and the operators
  \<open><\<close> and \<open><=\<close> on numbers: a comparison with \<open>NaN\<close> is false.
\<close>

fun Number_lessThan :: "number \<Rightarrow> number \<Rightarrow> bool option" where
  "Number_lessThan NaN y = None"
| "Number_lessThan x NaN = None"
| "Number_lessThan PosInfinity y = Some False"
| "Number_lessThan x PosInfinity = Some True"
| "Number_lessThan x NegInfinity = Some False"
| "Number_lessThan NegInfinity y = Some True"
| "Number_lessThan (Finite m e) (Finite m' e') = Some (finiteValue m e < finiteValue m' e')"

definition lessThan' :: "number \<Rightarrow> number \<Rightarrow> bool" where
  "lessThan' x y \<longleftrightarrow> Number_lessThan x y = Some True"

definition lessThanOrEqual :: "number \<Rightarrow> number \<Rightarrow> bool" where
  "lessThanOrEqual x y \<longleftrightarrow> Number_lessThan y x = Some False"

text \<open>
  \<open>ToIntegerOrInfinity\<close>, which the array methods apply to an index: the
  fraction of a number is cut off, toward zero, and \<open>NaN\<close> counts as 0.
\<close>

datatype integerOrInfinity = Integer int | PlusInfinity | MinusInfinity

definition truncate' :: "int \<Rightarrow> int \<Rightarrow> int" where
  "truncate' m e =
     (if 0 \<le> e then m * 10 ^ nat e
      else if m < 0 then - ((- m) div 10 ^ nat (- e))
      else m div 10 ^ nat (- e))"

definition ToIntegerOrInfinity :: "number \<Rightarrow> integerOrInfinity" where
  "ToIntegerOrInfinity x =
     (case x of
        Finite m e \<Rightarrow> Integer (truncate' m e)
      | NaN \<Rightarrow> Integer 0
      | PosInfinity \<Rightarrow> PlusInfinity
      | NegInfinity \<Rightarrow> MinusInfinity)"

text \<open>
  Values of type \<open>unknown\<close> (the entries of an item's \<open>metadata\<close>) are JSON trees.
  Strings are sequences of bytes. An object is the list of its properties in
  insertion order.
\<close>

datatype json =
    JNull
  | JBool bool
  | JNumber number
  | JString string
  | JArray "json list"
  | JObject "(string \<times> json) list"

text \<open>
  \<open>String.prototype.toLowerCase\<close> on the letters \<open>A\<close> to \<open>Z\<close>; every other
  character is left as it is. The strings of the fixture are ASCII, so a filter
  text with a character outside ASCII matches none of them.
\<close>

definition toLowerCaseChar :: "char \<Rightarrow> char" where
  "toLowerCaseChar c =
     (if (65::nat) \<le> of_char c \<and> of_char c \<le> (90::nat)
      then char_of (of_char c + (32::nat)) else c)"

definition toLowerCase :: "string \<Rightarrow> string" where
  "toLowerCase s = map toLowerCaseChar s"

text \<open>
  \<open>String.prototype.includes\<close>: \<open>s.includes(t)\<close> looks for \<open>t\<close> at every
  position of \<open>s\<close>, from the left.
\<close>

fun String_includes :: "string \<Rightarrow> string \<Rightarrow> bool" where
  "String_includes [] t = (t = [])"
| "String_includes (c # cs) t = (prefix t (c # cs) \<or> String_includes cs t)"

text \<open>
  \<open>Array.prototype.slice(start, end)\<close>: both arguments are numbers and go
  through \<open>ToIntegerOrInfinity\<close>; a negative index counts from the end of the
  array, both indices are clamped to the array, and nothing is returned when the
  final index is not above the first one.
\<close>

definition relativeIndex :: "int \<Rightarrow> integerOrInfinity \<Rightarrow> int" where
  "relativeIndex len i =
     (case i of
        MinusInfinity \<Rightarrow> 0
      | PlusInfinity \<Rightarrow> len
      | Integer r \<Rightarrow> if r < 0 then max (len + r) 0 else min r len)"

definition slice :: "'a list \<Rightarrow> number \<Rightarrow> number \<Rightarrow> 'a list" where
  "slice xs start end' =
     (let len = int (length xs);
          k = relativeIndex len (ToIntegerOrInfinity start);
          final = relativeIndex len (ToIntegerOrInfinity end')
      in take (nat (max (final - k) 0)) (drop (nat k) xs))"

text \<open>
  Object spread followed by a property: \<open>{...m, k: v}\<close> keeps the position of a
  key that \<open>m\<close> already has and appends a new one.
\<close>

fun setProperty :: "string \<Rightarrow> 'v \<Rightarrow> (string \<times> 'v) list \<Rightarrow> (string \<times> 'v) list" where
  "setProperty k v [] = [(k, v)]"
| "setProperty k v (p # ps) = (if fst p = k then (k, v) # ps else p # setProperty k v ps)"

text \<open>
  \<open>String.prototype.split\<close> with a separator of one character, and
  \<open>Array.prototype.join\<close>. The result of \<open>split\<close> is never empty: a string
  without the separator is the only piece.
\<close>

fun split :: "char \<Rightarrow> string \<Rightarrow> string list" where
  "split sep [] = [] # []"
| "split sep (c # cs) =
     (if c = sep then [] # split sep cs
      else (case split sep cs of
              [] \<Rightarrow> [c] # []
            | piece # pieces \<Rightarrow> (c # piece) # pieces))"

fun join :: "string \<Rightarrow> string list \<Rightarrow> string" where
  "join sep [] = []"
| "join sep [x] = x"
| "join sep (x # y # ys) = x @ sep @ join sep (y # ys)"

text \<open>
  \<open>JSON.stringify(value, null, space)\<close> on a JSON tree: \<open>gap\<close> is the string of
  \<open>space\<close> blanks (at most ten), \<open>indent\<close> the indentation of the enclosing
  level. With an empty gap nothing is put between the tokens; otherwise every
  element of a non-empty array or object starts a new line, one gap deeper, and a
  blank follows the colon of a member. Strings are quoted with the escapes of
  \<open>QuoteJSONString\<close>. A finite number is printed by \<open>Number::toString\<close>, and
  \<open>NaN\<close> and the infinities as \<open>null\<close>.

  \<open>Number::toString\<close> for radix 10 takes the digits \<open>s\<close> of the number, their
  count \<open>k\<close> and the position \<open>n\<close> of the decimal point after the first
  digit of \<open>s\<close>: up to 21 digits before the point are written out, a number
  below one has up to six zeros behind the point, and everything else is in
  exponent form, as \<open>1e+21\<close> and \<open>1.5e-7\<close>. In \<open>positiveToString s e\<close> the
  number is \<open>s\<close> times ten to the power \<open>e\<close>, so \<open>n\<close> is \<open>k + e\<close>.
\<close>

definition hexDigit :: "nat \<Rightarrow> char" where
  "hexDigit n = ''0123456789abcdef'' ! (n mod 16)"

definition QuoteJSONChar :: "char \<Rightarrow> string" where
  "QuoteJSONChar c =
     (if c = CHR 0x08 then [CHR 0x5C, CHR ''b'']
      else if c = CHR 0x09 then [CHR 0x5C, CHR ''t'']
      else if c = CHR 0x0A then [CHR 0x5C, CHR ''n'']
      else if c = CHR 0x0C then [CHR 0x5C, CHR ''f'']
      else if c = CHR 0x0D then [CHR 0x5C, CHR ''r'']
      else if c = CHR 0x22 then [CHR 0x5C, CHR 0x22]
      else if c = CHR 0x5C then [CHR 0x5C, CHR 0x5C]
      else if (of_char c :: nat) < 32
        then [CHR 0x5C, CHR ''u'', CHR ''0'', CHR ''0'',
              hexDigit (of_char c div 16), hexDigit (of_char c mod 16)]
      else [c])"

definition QuoteJSONString :: "string \<Rightarrow> string" where
  "QuoteJSONString s = CHR 0x22 # concat (map QuoteJSONChar s) @ [CHR 0x22]"

fun digits :: "nat \<Rightarrow> string" where
  "digits n =
     (if n < 10 then [char_of (48 + n)]
      else digits (n div 10) @ [char_of (48 + n mod 10)])"

declare digits.simps [simp del]

definition positiveToString :: "nat \<Rightarrow> int \<Rightarrow> string" where
  "positiveToString s e =
     (let ds = digits s;
          k = int (length ds);
          n = k + e
      in if k \<le> n \<and> n \<le> 21 then ds @ replicate (nat (n - k)) CHR ''0''
         else if 0 < n \<and> n \<le> 21 then take (nat n) ds @ CHR ''.'' # drop (nat n) ds
         else if - 6 < n \<and> n \<le> 0 then ''0.'' @ replicate (nat (- n)) CHR ''0'' @ ds
         else (if k = 1 then ds else hd ds # CHR ''.'' # tl ds) @
              CHR ''e'' # (if n - 1 < 0 then CHR ''-'' else CHR ''+'') # digits (nat \<bar>n - 1\<bar>))"

definition Number_toString :: "number \<Rightarrow> string" where
  "Number_toString x =
     (case x of
        NaN \<Rightarrow> ''NaN''
      | PosInfinity \<Rightarrow> ''Infinity''
      | NegInfinity \<Rightarrow> ''-Infinity''
      | Finite m e \<Rightarrow>
          if m = 0 then ''0''
          else (let (s, e') = stripZeros (nat \<bar>m\<bar>) e
                in if m < 0 then CHR ''-'' # positiveToString s e' else positiveToString s e'))"

fun SerializeJSONProperty :: "string \<Rightarrow> string \<Rightarrow> json \<Rightarrow> string" where
  "SerializeJSONProperty gap indent JNull = ''null''"
| "SerializeJSONProperty gap indent (JBool b) = (if b then ''true'' else ''false'')"
| "SerializeJSONProperty gap indent (JNumber n) =
     (case n of Finite m e \<Rightarrow> Number_toString n | _ \<Rightarrow> ''null'')"
| "SerializeJSONProperty gap indent (JString s) = QuoteJSONString s"
| "SerializeJSONProperty gap indent (JArray xs) =
     (if xs = [] then ''[]''
      else if gap = []
        then ''['' @ join '','' (map (SerializeJSONProperty gap (indent @ gap)) xs) @ '']''
        else ''['' @ CHR 0x0A # (indent @ gap) @
             join ('','' @ CHR 0x0A # (indent @ gap))
                  (map (SerializeJSONProperty gap (indent @ gap)) xs) @
             CHR 0x0A # indent @ '']'')"
| "SerializeJSONProperty gap indent (JObject ps) =
     (if ps = [] then ''{}''
      else if gap = []
        then ''{'' @ join '',''
               (map (\<lambda>(k, v). QuoteJSONString k @ '':'' @
                                SerializeJSONProperty gap (indent @ gap) v) ps) @ ''}''
        else ''{'' @ CHR 0x0A # (indent @ gap) @
             join ('','' @ CHR 0x0A # (indent @ gap))
               (map (\<lambda>(k, v). QuoteJSONString k @ '': '' @
                                SerializeJSONProperty gap (indent @ gap) v) ps) @
             CHR 0x0A # indent @ ''}'')"

definition JSON_stringify :: "json \<Rightarrow> nat \<Rightarrow> string" where
  "JSON_stringify v space = SerializeJSONProperty (replicate (min space 10) CHR '' '') [] v"

text \<open>
  \<open>JSON.parse\<close>, which the tests apply to the text of an answer. White space is
  skipped around every token; a string ends at the first quote that is not
  escaped; a duplicate key overwrites the earlier value; text left after the value
  is an error. A number is an optional minus sign, digits without a leading
  zero, an optional fraction and an optional exponent; its value is the decimal
  that is written, which is the number itself for a text that
  \<open>Number::toString\<close> printed; JavaScript rounds any other decimal to the
  nearest double. \<open>None\<close> is a \<open>SyntaxError\<close>, and also a text outside the
  values of the model: the escape of a code point above \<open>007F\<close>.
  The recursion is bounded by the length of the text.
\<close>

definition isWhitespace :: "char \<Rightarrow> bool" where
  "isWhitespace c \<longleftrightarrow> c = CHR '' '' \<or> c = CHR 0x09 \<or> c = CHR 0x0A \<or> c = CHR 0x0D"

definition skipWhitespace :: "string \<Rightarrow> string" where
  "skipWhitespace s = dropWhile isWhitespace s"

definition isDigit :: "char \<Rightarrow> bool" where
  "isDigit c \<longleftrightarrow> (48::nat) \<le> of_char c \<and> of_char c \<le> (57::nat)"














section \<open>The example tool: \<open>exampleDataOperation\<close>\<close>

record ExampleItem =
  id' :: string
  title :: string
  description :: string
  category :: string
  metadata :: "(string \<times> json) list option"
  createdAt :: string
  updatedAt :: string

record DataOperationInput =
  limit :: number
  filter' :: "string option"
  includeMetadata :: bool

record DataOperationResult =
  items :: "ExampleItem list"
  totalFound :: nat
  filters :: DataOperationInput

definition allItems :: "ExampleItem list" where
  "allItems =
    [ \<lparr> id' = ''1'',
        title = ''Example Item 1'',
        description = ''This is a sample item for demonstration'',
        category = ''sample'',
        metadata = None,
        createdAt = ''2024-01-01T00:00:00Z'',
        updatedAt = ''2024-01-01T00:00:00Z'' \<rparr>,
      \<lparr> id' = ''2'',
        title = ''Example Item 2'',
        description = ''Another sample item with different category'',
        category = ''demo'',
        metadata = None,
        createdAt = ''2024-01-02T00:00:00Z'',
        updatedAt = ''2024-01-02T00:00:00Z'' \<rparr>,
      \<lparr> id' = ''3'',
        title = ''Example Item 3'',
        description = ''Third sample item for testing filters'',
        category = ''test'',
        metadata = Some [(''tags'', JArray [JString ''important'', JString ''featured''])],
        createdAt = ''2024-01-03T00:00:00Z'',
        updatedAt = ''2024-01-03T00:00:00Z'' \<rparr> ]"

text \<open>The predicate of \<open>allItems.filter\<close>, for the filter text \<open>f\<close>.\<close>

definition matchesFilter :: "string \<Rightarrow> ExampleItem \<Rightarrow> bool" where
  "matchesFilter f item \<longleftrightarrow>
     String_includes (toLowerCase (title item)) (toLowerCase f) \<or>
     String_includes (toLowerCase (description item)) (toLowerCase f) \<or>
     String_includes (toLowerCase (category item)) (toLowerCase f)"

text \<open>
  \<open>if (input.filter)\<close>: an absent filter and the empty string are both falsy, and
  then the whole fixture is kept.
\<close>

definition filteredItems :: "DataOperationInput \<Rightarrow> ExampleItem list" where
  "filteredItems input =
     (case filter' input of
        None \<Rightarrow> allItems
      | Some f \<Rightarrow> if f = [] then allItems else filter (matchesFilter f) allItems)"

text \<open>
  The callback of \<open>limitedItems.map\<close>. The item is copied; with \<open>includeMetadata\<close>
  its metadata is a copy with \<open>processingTime\<close> and \<open>source\<close> set, where
  \<open>now\<close> is what \<open>new Date().toISOString()\<close> gives at that moment.
\<close>

definition withMetadata :: "bool \<Rightarrow> string \<Rightarrow> ExampleItem \<Rightarrow> ExampleItem" where
  "withMetadata inc now item =
     item \<lparr> metadata :=
       (if inc
        then Some (setProperty ''source'' (JString ''example-data-source'')
                    (setProperty ''processingTime'' (JString now)
                      (case metadata item of None \<Rightarrow> [] | Some m \<Rightarrow> m)))
        else metadata item) \<rparr>"

text \<open>
  \<open>exampleDataOperation\<close>. The clock is read once for every item that is mapped:
  \<open>clock k\<close> is the reading for the item at index \<open>k\<close>. The simulated delay of
  100 ms has no effect on the result.
\<close>

definition exampleDataOperation :: "(nat \<Rightarrow> string) \<Rightarrow> DataOperationInput \<Rightarrow> DataOperationResult" where
  "exampleDataOperation clock input =
     (let limitedItems = slice (filteredItems input) (fromInt 0) (limit input);
          finalItems = map (\<lambda>(k, item). withMetadata (includeMetadata input) (clock k) item)
                           (enumerate 0 limitedItems)
      in \<lparr> items = finalItems,
           totalFound = length (filteredItems input),
           filters = input \<rparr>)"

section \<open>The operation on a store of objects\<close>

text \<open>
  The same function with its objects in a store, to tell a copy from the object
  itself. An object or array lives at an address; a value is a primitive or the
  address of an object. Creating an object appends it to the store, and nothing
  else changes a store. \<open>None\<close> stands for a \<open>TypeError\<close>: a property read
  from something that is not an object, or a string method called on something
  that is not a string.
\<close>

datatype val = Undefined | Str string | Num number | Bool bool | Ref nat

datatype obj = Obj "(string \<times> val) list" | Arr "val list"

type_synonym heap = "obj list"

definition alloc :: "obj \<Rightarrow> heap \<Rightarrow> val \<times> heap" where
  "alloc ob h = (Ref (length h), h @ [ob])"

definition properties :: "heap \<Rightarrow> val \<Rightarrow> (string \<times> val) list option" where
  "properties h v =
     (case v of
        Ref a \<Rightarrow> (if a < length h then (case h ! a of Obj ps \<Rightarrow> Some ps | Arr vs \<Rightarrow> None) else None)
      | _ \<Rightarrow> None)"

definition elements :: "heap \<Rightarrow> val \<Rightarrow> val list option" where
  "elements h v =
     (case v of
        Ref a \<Rightarrow> (if a < length h then (case h ! a of Arr vs \<Rightarrow> Some vs | Obj ps \<Rightarrow> None) else None)
      | _ \<Rightarrow> None)"

definition getProperty :: "(string \<times> val) list \<Rightarrow> string \<Rightarrow> val" where
  "getProperty ps k = (case map_of ps k of None \<Rightarrow> Undefined | Some v \<Rightarrow> v)"

definition get :: "heap \<Rightarrow> val \<Rightarrow> string \<Rightarrow> val option" where
  "get h v k = map_option (\<lambda>ps. getProperty ps k) (properties h v)"

definition toStr :: "val \<Rightarrow> string option" where
  "toStr v = (case v of Str s \<Rightarrow> Some s | _ \<Rightarrow> None)"

definition toNum :: "val \<Rightarrow> number option" where
  "toNum v = (case v of Num n \<Rightarrow> Some n | _ \<Rightarrow> None)"

definition truthy :: "val \<Rightarrow> bool" where
  "truthy v =
     (case v of
        Undefined \<Rightarrow> False
      | Str s \<Rightarrow> s \<noteq> []
      | Num n \<Rightarrow> (case n of Finite m e \<Rightarrow> m \<noteq> 0 | NaN \<Rightarrow> False | _ \<Rightarrow> True)
      | Bool b \<Rightarrow> b
      | Ref a \<Rightarrow> True)"

text \<open>The array literal of the fixture: six objects are created.\<close>

definition allItems_h :: "heap \<Rightarrow> val \<times> heap" where
  "allItems_h h0 =
     (let (item1, h1) = alloc (Obj [(''id'', Str ''1''),
                                    (''title'', Str ''Example Item 1''),
                                    (''description'', Str ''This is a sample item for demonstration''),
                                    (''category'', Str ''sample''),
                                    (''createdAt'', Str ''2024-01-01T00:00:00Z''),
                                    (''updatedAt'', Str ''2024-01-01T00:00:00Z'')]) h0;
          (item2, h2) = alloc (Obj [(''id'', Str ''2''),
                                    (''title'', Str ''Example Item 2''),
                                    (''description'', Str ''Another sample item with different category''),
                                    (''category'', Str ''demo''),
                                    (''createdAt'', Str ''2024-01-02T00:00:00Z''),
                                    (''updatedAt'', Str ''2024-01-02T00:00:00Z'')]) h1;
          (tags, h3) = alloc (Arr [Str ''important'', Str ''featured'']) h2;
          (meta, h4) = alloc (Obj [(''tags'', tags)]) h3;
          (item3, h5) = alloc (Obj [(''id'', Str ''3''),
                                    (''title'', Str ''Example Item 3''),
                                    (''description'', Str ''Third sample item for testing filters''),
                                    (''category'', Str ''test''),
                                    (''metadata'', meta),
                                    (''createdAt'', Str ''2024-01-03T00:00:00Z''),
                                    (''updatedAt'', Str ''2024-01-03T00:00:00Z'')]) h4
      in alloc (Arr [item1, item2, item3]) h5)"

text \<open>
  The predicate of \<open>allItems.filter\<close> on an item of the store; \<open>||\<close> reads the
  next field only when the one before does not match.
\<close>

definition matchesFilter_h :: "heap \<Rightarrow> string \<Rightarrow> val \<Rightarrow> bool option" where
  "matchesFilter_h h f item =
     do {
       t \<leftarrow> get h item ''title'' \<bind> toStr;
       if String_includes (toLowerCase t) (toLowerCase f) then Some True
       else do {
         d \<leftarrow> get h item ''description'' \<bind> toStr;
         if String_includes (toLowerCase d) (toLowerCase f) then Some True
         else do {
           c \<leftarrow> get h item ''category'' \<bind> toStr;
           Some (String_includes (toLowerCase c) (toLowerCase f))
         }
       }
     }"

fun filter_h :: "(val \<Rightarrow> bool option) \<Rightarrow> val list \<Rightarrow> val list option" where
  "filter_h p [] = Some []"
| "filter_h p (x # xs) =
     do {
       b \<leftarrow> p x;
       ys \<leftarrow> filter_h p xs;
       Some (if b then x # ys else ys)
     }"

text \<open>
  The callback of \<open>limitedItems.map\<close>: a new object with the properties of the
  item and \<open>metadata\<close> set, to a new metadata object when \<open>includeMetadata\<close>
  holds and to the value the item has otherwise. By its type the metadata of an
  item is an object or absent.
\<close>

definition copyWithMetadata :: "heap \<Rightarrow> val \<Rightarrow> string \<Rightarrow> val \<Rightarrow> (val \<times> heap) option" where
  "copyWithMetadata h input now item =
     do {
       ps \<leftarrow> properties h item;
       inc \<leftarrow> get h input ''includeMetadata'';
       if truthy inc then
         do {
           ms \<leftarrow> (case getProperty ps ''metadata'' of
                    Undefined \<Rightarrow> Some []
                  | m \<Rightarrow> properties h m);
           let (meta, h') = alloc (Obj (setProperty ''source'' (Str ''example-data-source'')
                                         (setProperty ''processingTime'' (Str now) ms))) h;
           Some (alloc (Obj (setProperty ''metadata'' meta ps)) h')
         }
       else Some (alloc (Obj (setProperty ''metadata'' (getProperty ps ''metadata'') ps)) h)
     }"

fun map_h :: "val \<Rightarrow> (nat \<Rightarrow> string) \<Rightarrow> nat \<Rightarrow> val list \<Rightarrow> heap \<Rightarrow> (val list \<times> heap) option" where
  "map_h input clock k [] h = Some ([], h)"
| "map_h input clock k (x # xs) h =
     do {
       (y, h') \<leftarrow> copyWithMetadata h input (clock k) x;
       (ys, h'') \<leftarrow> map_h input clock (Suc k) xs h';
       Some (y # ys, h'')
     }"

text \<open>
  \<open>exampleDataOperation\<close> on the store \<open>h0\<close>, where \<open>input\<close> is the input
  object: the result object and the store after the call.
\<close>

definition exampleDataOperation_h :: "(nat \<Rightarrow> string) \<Rightarrow> val \<Rightarrow> heap \<Rightarrow> (val \<times> heap) option" where
  "exampleDataOperation_h clock input h0 =
     (let (allItems, h1) = allItems_h h0 in
      do {
        f \<leftarrow> get h1 input ''filter'';
        (filteredItems, h2) \<leftarrow>
          (if truthy f then
             do {
               s \<leftarrow> toStr f;
               xs \<leftarrow> elements h1 allItems;
               ys \<leftarrow> filter_h (matchesFilter_h h1 s) xs;
               Some (alloc (Arr ys) h1)
             }
           else Some (allItems, h1));
        l \<leftarrow> get h2 input ''limit'' \<bind> toNum;
        xs \<leftarrow> elements h2 filteredItems;
        let (limitedItems, h3) = alloc (Arr (slice xs (fromInt 0) l)) h2;
        ls \<leftarrow> elements h3 limitedItems;
        (fs, h4) \<leftarrow> map_h input clock 0 ls h3;
        let (finalItems, h5) = alloc (Arr fs) h4;
        Some (alloc (Obj [(''items'', finalItems),
                          (''totalFound'', Num (fromInt (int (length xs)))),
                          (''filters'', input)]) h5)
      })"

text \<open>
  Reading the store back: the input object of a call, and the item, the metadata
  and the result that a value stands for.
\<close>

definition inputObject :: "DataOperationInput \<Rightarrow> obj" where
  "inputObject input =
     Obj ([(''limit'', Num (limit input))] @
          (case filter' input of None \<Rightarrow> [] | Some f \<Rightarrow> [(''filter'', Str f)]) @
          [(''includeMetadata'', Bool (includeMetadata input))])"

fun read_json :: "nat \<Rightarrow> heap \<Rightarrow> val \<Rightarrow> json option" where
  "read_json 0 h v = None"
| "read_json (Suc n) h v =
     (case v of
        Undefined \<Rightarrow> None
      | Str s \<Rightarrow> Some (JString s)
      | Num i \<Rightarrow> Some (JNumber i)
      | Bool b \<Rightarrow> Some (JBool b)
      | Ref a \<Rightarrow>
          (if a < length h then
             (case h ! a of
                Arr vs \<Rightarrow> map_option JArray (those (map (read_json n h) vs))
              | Obj ps \<Rightarrow>
                  map_option JObject
                    (those (map (\<lambda>(k, x). map_option (Pair k) (read_json n h x)) ps)))
           else None))"

definition read_metadata :: "heap \<Rightarrow> val \<Rightarrow> (string \<times> json) list option option" where
  "read_metadata h v =
     (case v of
        Undefined \<Rightarrow> Some None
      | _ \<Rightarrow> (case read_json 3 h v of Some (JObject m) \<Rightarrow> Some (Some m) | _ \<Rightarrow> None))"

definition read_item :: "heap \<Rightarrow> val \<Rightarrow> ExampleItem option" where
  "read_item h v =
     do {
       ps \<leftarrow> properties h v;
       i \<leftarrow> toStr (getProperty ps ''id'');
       t \<leftarrow> toStr (getProperty ps ''title'');
       d \<leftarrow> toStr (getProperty ps ''description'');
       c \<leftarrow> toStr (getProperty ps ''category'');
       m \<leftarrow> read_metadata h (getProperty ps ''metadata'');
       ca \<leftarrow> toStr (getProperty ps ''createdAt'');
       ua \<leftarrow> toStr (getProperty ps ''updatedAt'');
       Some \<lparr> id' = i, title = t, description = d, category = c, metadata = m,
              createdAt = ca, updatedAt = ua \<rparr>
     }"

definition read_items :: "heap \<Rightarrow> val \<Rightarrow> ExampleItem list option" where
  "read_items h v = elements h v \<bind> (\<lambda>vs. those (map (read_item h) vs))"

section \<open>The response formatter\<close>

datatype OutputFormat = Json | CompactJson

text \<open>
  \<open>formatResponse\<close>: \<open>JSON.stringify(data)\<close> for \<open>'compact-json'\<close>, and
  \<open>JSON.stringify(data, null, 2)\<close> for \<open>'json'\<close> and for an absent format.
  Serialising a JSON tree does not throw, so the \<open>catch\<close> clause of the source,
  which serialises with two blanks again, is never entered.
\<close>

definition formatResponse :: "json \<Rightarrow> OutputFormat option \<Rightarrow> string" where
  "formatResponse data format =
     (case format of
        Some CompactJson \<Rightarrow> JSON_stringify data 0
      | Some Json \<Rightarrow> JSON_stringify data 2
      | None \<Rightarrow> JSON_stringify data 2)"

section \<open>The registered tools\<close>

text \<open>
  A value that is thrown: an instance of \<open>Error\<close> with its message, or any other
  value. A call returns \<open>Inr\<close> of its result or \<open>Inl\<close> of what it threw.
\<close>

datatype thrown = Error string | NonError json

record TextContent =
  type' :: string
  text' :: string

record CallToolResult =
  content :: "TextContent list"

subsection \<open>\<open>get_data\<close>\<close>

text \<open>
  The arguments of a call, and the schema of the tool: \<open>limit\<close> is a number from
  1 to 100, 10 when absent; \<open>includeMetadata\<close> is false and \<open>outputMode\<close> is
  \<open>'json'\<close> when absent. \<open>z.number()\<close> takes no \<open>NaN\<close>, \<open>min(1)\<close> refuses
  a number below 1 and \<open>max(100)\<close> one above 100; a fraction is let through.
  The schema gives \<open>None\<close> for arguments it rejects, and then the handler is
  not called.
\<close>

record get_data_arguments =
  limit_arg :: "number option"
  filter_arg :: "string option"
  includeMetadata_arg :: "bool option"
  outputMode_arg :: "OutputFormat option"

record get_data_input = DataOperationInput +
  outputMode :: OutputFormat

definition get_data_schema :: "get_data_arguments \<Rightarrow> get_data_input option" where
  "get_data_schema args =
     (let l = (case limit_arg args of None \<Rightarrow> fromInt 10 | Some n \<Rightarrow> n)
      in if l = NaN \<or> lessThan' l (fromInt 1) \<or> lessThan' (fromInt 100) l then None
         else Some \<lparr> limit = l,
                     filter' = filter_arg args,
                     includeMetadata = (case includeMetadata_arg args of None \<Rightarrow> False | Some b \<Rightarrow> b),
                     outputMode = (case outputMode_arg args of None \<Rightarrow> Json | Some m \<Rightarrow> m) \<rparr>)"

text \<open>
  The result of the operation as the JSON tree that is serialised. A property
  whose value is \<open>undefined\<close> is left out, as \<open>JSON.stringify\<close> does. A
  returned item is the copy \<open>{...item, metadata: ...}\<close> of a fixture record:
  \<open>metadata\<close> keeps its place, after \<open>category\<close>, when the record has the
  key, and is the last key of the copy when the record has none. The record is
  the one of the fixture with the id of the item.
\<close>

definition fixtureHasMetadata :: "ExampleItem \<Rightarrow> bool" where
  "fixtureHasMetadata item =
     (case find (\<lambda>x. id' x = id' item) allItems of
        None \<Rightarrow> False
      | Some x \<Rightarrow> metadata x \<noteq> None)"

definition json_of_item :: "ExampleItem \<Rightarrow> json" where
  "json_of_item item =
     (let m = (case metadata item of None \<Rightarrow> [] | Some m \<Rightarrow> [(''metadata'', JObject m)])
      in JObject ([(''id'', JString (id' item)),
                   (''title'', JString (title item)),
                   (''description'', JString (description item)),
                   (''category'', JString (category item))] @
                  (if fixtureHasMetadata item then m else []) @
                  [(''createdAt'', JString (createdAt item)),
                   (''updatedAt'', JString (updatedAt item))] @
                  (if fixtureHasMetadata item then [] else m)))"

definition json_of_input :: "DataOperationInput \<Rightarrow> json" where
  "json_of_input input =
     JObject ([(''limit'', JNumber (limit input))] @
              (case filter' input of None \<Rightarrow> [] | Some f \<Rightarrow> [(''filter'', JString f)]) @
              [(''includeMetadata'', JBool (includeMetadata input))])"

definition json_of_result :: "DataOperationResult \<Rightarrow> json" where
  "json_of_result r =
     JObject [(''items'', JArray (map json_of_item (items r))),
              (''totalFound'', JNumber (fromInt (int (totalFound r)))),
              (''filters'', json_of_input (filters r))]"

text \<open>
  What \<open>JSON.stringify\<close> reads from the store: the properties of an object in
  their order, a property whose value is \<open>undefined\<close> left out, and an
  \<open>undefined\<close> element of an array as \<open>null\<close>. The recursion is bounded by
  the depth \<open>n\<close>.
\<close>

fun json_of_store :: "nat \<Rightarrow> heap \<Rightarrow> val \<Rightarrow> json option" where
  "json_of_store 0 h v = None"
| "json_of_store (Suc n) h v =
     (case v of
        Undefined \<Rightarrow> None
      | Str s \<Rightarrow> Some (JString s)
      | Num i \<Rightarrow> Some (JNumber i)
      | Bool b \<Rightarrow> Some (JBool b)
      | Ref a \<Rightarrow>
          (if a < length h then
             (case h ! a of
                Arr vs \<Rightarrow>
                  map_option JArray
                    (those (map (\<lambda>x. if x = Undefined then Some JNull else json_of_store n h x) vs))
              | Obj ps \<Rightarrow>
                  map_option JObject
                    (those (map (\<lambda>(k, x). map_option (Pair k) (json_of_store n h x))
                              (filter (\<lambda>(k, x). x \<noteq> Undefined) ps))))
           else None))"

text \<open>
  The text of the \<open>catch\<close> clause:
  \<open>`Error: ${error instanceof Error ? error.message : 'Unknown error occurred'}`\<close>.
\<close>

definition errorText :: "thrown \<Rightarrow> string" where
  "errorText error =
     ''Error: '' @ (case error of Error message \<Rightarrow> message
                                | NonError v \<Rightarrow> ''Unknown error occurred'')"

text \<open>
  The handler of \<open>get_data\<close>, for any awaited operation: the \<open>try\<close> block calls
  the operation on the three fields of the input and formats its result; the
  \<open>catch\<close> clause turns whatever was thrown into a text block. The registered
  handler awaits \<open>exampleDataOperation\<close>, which returns for every input.
\<close>

definition get_data_handler_with ::
  "(DataOperationInput \<Rightarrow> thrown + DataOperationResult) \<Rightarrow> get_data_input \<Rightarrow> thrown + CallToolResult" where
  "get_data_handler_with operation input =
     (case operation \<lparr> limit = limit input,
                       filter' = filter' input,
                       includeMetadata = includeMetadata input \<rparr> of
        Inr result \<Rightarrow>
          Inr \<lparr> content = [\<lparr> type' = ''text'',
                             text' = formatResponse (json_of_result result) (Some (outputMode input)) \<rparr>] \<rparr>
      | Inl error \<Rightarrow>
          Inr \<lparr> content = [\<lparr> type' = ''text'', text' = errorText error \<rparr>] \<rparr>)"

definition get_data_handler :: "(nat \<Rightarrow> string) \<Rightarrow> get_data_input \<Rightarrow> thrown + CallToolResult" where
  "get_data_handler clock = get_data_handler_with (\<lambda>input. Inr (exampleDataOperation clock input))"

subsection \<open>\<open>get_system_info\<close>\<close>

datatype InfoKind = Date | Timezone | Version | All

record get_system_info_arguments =
  info_arg :: "InfoKind option"

record get_system_info_input =
  info :: InfoKind

definition get_system_info_schema :: "get_system_info_arguments \<Rightarrow> get_system_info_input option" where
  "get_system_info_schema args =
     Some \<lparr> info = (case info_arg args of None \<Rightarrow> All | Some i \<Rightarrow> i) \<rparr>"

text \<open>
  What the handler reads from the runtime: the text of
  \<open>new Date().toISOString()\<close>, and the outcome of
  \<open>Intl.DateTimeFormat().resolvedOptions().timeZone\<close>, which throws in a runtime
  without \<open>Intl\<close>.
\<close>

record Runtime =
  nowISOString :: string
  resolvedTimeZone :: "thrown + string"

text \<open>
  The handler of \<open>get_system_info\<close>. It has no \<open>try\<close>: what the runtime throws
  leaves the handler. The four values are computed before the \<open>switch\<close>, whose
  \<open>default\<close> branch serves \<open>'all'\<close>.
\<close>

definition get_system_info_handler :: "Runtime \<Rightarrow> get_system_info_input \<Rightarrow> thrown + CallToolResult" where
  "get_system_info_handler rt input =
     (let currentDate = hd (split CHR ''T'' (nowISOString rt));
          currentTime = nowISOString rt
      in case resolvedTimeZone rt of
           Inl error \<Rightarrow> Inl error
         | Inr timezone \<Rightarrow>
             (let version = ''0.1.0'';
                  response =
                    (case info input of
                       Date \<Rightarrow> ''Current date: '' @ currentDate
                     | Timezone \<Rightarrow> ''Timezone: '' @ timezone
                     | Version \<Rightarrow> ''Server version: '' @ version
                     | All \<Rightarrow> join [CHR 0x0A]
                               [''Current date: '' @ currentDate,
                                ''Current time: '' @ currentTime,
                                ''Timezone: '' @ timezone,
                                ''Server version: '' @ version,
                                [],
                                ''Use this information for date filtering and context.''])
              in Inr \<lparr> content = [\<lparr> type' = ''text'', text' = response \<rparr>] \<rparr>))"

section \<open>Notions and example inputs used by the statements\<close>

text \<open>An item without its metadata: the fields that \<open>exampleDataOperation\<close> copies.\<close>

definition core :: "ExampleItem \<Rightarrow> ExampleItem" where
  "core item = item \<lparr> metadata := None \<rparr>"





definition startsValue :: "string \<Rightarrow> bool" where
  "startsValue s \<longleftrightarrow>
     s \<noteq> [] \<and> \<not> isWhitespace (hd s) \<and> hd s \<noteq> CHR '']'' \<and> hd s \<noteq> CHR ''}'' \<and> hd s \<noteq> CHR '',''"

definition follows :: "string \<Rightarrow> bool" where
  "follows r \<longleftrightarrow>
     r = [] \<or> hd r = CHR '','' \<or> hd r = CHR '']'' \<or> hd r = CHR ''}'' \<or> isWhitespace (hd r)"





definition fixedClock :: "nat \<Rightarrow> string" where
  "fixedClock k = ''2024-06-01T12:00:00.000Z''"

definition laterClock :: "nat \<Rightarrow> string" where
  "laterClock k = ''2024-06-01T12:00:01.000Z''"

definition sampleInput :: DataOperationInput where
  "sampleInput = \<lparr> limit = fromInt 2, filter' = Some ''sample'', includeMetadata = False \<rparr>"

definition demoInput :: DataOperationInput where
  "demoInput = \<lparr> limit = fromInt 10, filter' = Some ''TEST'', includeMetadata = False \<rparr>"

definition noFilterInput :: DataOperationInput where
  "noFilterInput = \<lparr> limit = fromInt 2, filter' = None, includeMetadata = False \<rparr>"

definition metadataInput :: DataOperationInput where
  "metadataInput = \<lparr> limit = fromInt 10, filter' = None, includeMetadata = True \<rparr>"

definition negativeLimitInput :: DataOperationInput where
  "negativeLimitInput = \<lparr> limit = fromInt (- 1), filter' = None, includeMetadata = False \<rparr>"

definition fractionLimitInput :: DataOperationInput where
  "fractionLimitInput = \<lparr> limit = Finite (- 5) (- 1), filter' = None, includeMetadata = False \<rparr>"

definition zeroLimitInput :: DataOperationInput where
  "zeroLimitInput = \<lparr> limit = fromInt 0, filter' = None, includeMetadata = False \<rparr>"

definition largeLimitInput :: DataOperationInput where
  "largeLimitInput = \<lparr> limit = fromInt 1000, filter' = None, includeMetadata = False \<rparr>"

definition defaultInput :: get_data_input where
  "defaultInput = \<lparr> limit = fromInt 10, filter' = None, includeMetadata = False, outputMode = Json \<rparr>"

definition twoItemsInput :: get_data_input where
  "twoItemsInput = \<lparr> limit = fromInt 2, filter' = None, includeMetadata = False, outputMode = CompactJson \<rparr>"

definition failingOperation :: "DataOperationInput \<Rightarrow> thrown + DataOperationResult" where
  "failingOperation input = Inl (Error ''data source unavailable'')"

definition rejectingOperation :: "DataOperationInput \<Rightarrow> thrown + DataOperationResult" where
  "rejectingOperation input = Inl (NonError (JString ''timeout''))"

definition exampleRuntime :: Runtime where
  "exampleRuntime = \<lparr> nowISOString = ''2024-06-01T12:00:00.000Z'',
                      resolvedTimeZone = Inr ''Europe/Berlin'' \<rparr>"

definition runtimeWithoutIntl :: Runtime where
  "runtimeWithoutIntl = \<lparr> nowISOString = ''2024-06-01T12:00:00.000Z'',
                          resolvedTimeZone = Inl (Error ''Intl is not defined'') \<rparr>"

section \<open>Properties of the built-ins\<close>

lemma String_includes_sublist: "String_includes s t \<longleftrightarrow> sublist t s"
  by (induction s) (auto simp: sublist_Cons_right)

lemma stripZeros_zero: "stripZeros 0 e = (0, 0)"
  by (subst stripZeros.simps) simp



lemma stripZeros_result:
  "stripZeros n e = (n', e') \<Longrightarrow> (if n' = 0 then n = 0 \<and> e' = 0 else n' mod 10 \<noteq> 0)"
proof (induction n e rule: stripZeros.induct)
  case (1 n e)
  show ?case
  proof (cases "n = 0")
    case True
    with "1.prems" show ?thesis by (simp add: stripZeros_zero)
  next
    case n: False
    show ?thesis
    proof (cases "n mod 10 = 0")
      case True
      with n "1.prems" have "stripZeros (n div 10) (e + 1) = (n', e')"
        by (subst (asm) stripZeros.simps) simp
      from "1.IH"[OF n True this] n True show ?thesis by (auto split: if_splits)
    next
      case False
      with n "1.prems" show ?thesis by (subst (asm) stripZeros.simps) auto
    qed
  qed
qed

lemma stripZeros_value:
  "stripZeros n e = (n', e') \<Longrightarrow> 0 \<le> e \<Longrightarrow> 0 \<le> e' \<and> n' * 10 ^ nat e' = n * 10 ^ nat e"
proof (induction n e rule: stripZeros.induct)
  case (1 n e)
  show ?case
  proof (cases "n = 0")
    case True
    with "1.prems" show ?thesis by (simp add: stripZeros_zero)
  next
    case n: False
    show ?thesis
    proof (cases "n mod 10 = 0")
      case True
      with n "1.prems" have s: "stripZeros (n div 10) (e + 1) = (n', e')"
        by (subst (asm) stripZeros.simps) simp
      from "1.prems"(2) have e: "0 \<le> e + 1" by simp
      from "1.IH"[OF n True s e] have "0 \<le> e'" and "n' * 10 ^ nat e' = (n div 10) * 10 ^ nat (e + 1)"
        by simp_all
      moreover have "nat (e + 1) = Suc (nat e)" using "1.prems"(2) by simp
      moreover have "n div 10 * 10 = n" using True by (simp add: mod_eq_0_iff_dvd)
      ultimately show ?thesis by (simp add: mult.assoc[symmetric])
    next
      case False
      with n "1.prems" show ?thesis by (subst (asm) stripZeros.simps) auto
    qed
  qed
qed



lemma fromInt_0: "fromInt 0 = Finite 0 0"
  by (simp add: fromInt_def stripZeros_zero)

lemma fromInt_Finite:
  obtains n e where "fromInt i = Finite (if i < 0 then - int n else int n) e"
    and "0 \<le> e" and "n * 10 ^ nat e = nat \<bar>i\<bar>"
    and "if n = 0 then i = 0 \<and> e = 0 else n mod 10 \<noteq> 0"
proof -
  obtain n e where s: "stripZeros (nat \<bar>i\<bar>) 0 = (n, e)" by (cases "stripZeros (nat \<bar>i\<bar>) 0")
  have "fromInt i = Finite (if i < 0 then - int n else int n) e" by (simp add: fromInt_def s)
  moreover have "0 \<le> e" "n * 10 ^ nat e = nat \<bar>i\<bar>" using stripZeros_value[OF s] by simp_all
  moreover have "if n = 0 then i = 0 \<and> e = 0 else n mod 10 \<noteq> 0"
    using stripZeros_result[OF s] by (auto split: if_splits)
  ultimately show thesis by (rule that)
qed


lemma truncate_integer: "0 \<le> e \<Longrightarrow> truncate' m e = m * 10 ^ nat e"
  by (simp add: truncate'_def)

lemma finiteValue_integer: "0 \<le> e \<Longrightarrow> finiteValue m e = of_int (m * 10 ^ nat e)"
  by (simp add: finiteValue_def)

lemma fromInt_value:
  obtains m e where "fromInt i = Finite m e" and "0 \<le> e" and "m * 10 ^ nat e = i"
proof -
  obtain n e where f: "fromInt i = Finite (if i < 0 then - int n else int n) e"
    and e: "0 \<le> e" and v: "n * 10 ^ nat e = nat \<bar>i\<bar>"
    by (rule fromInt_Finite)
  from v have "int (n * 10 ^ nat e) = \<bar>i\<bar>" by simp
  then have "int n * 10 ^ nat e = \<bar>i\<bar>" by simp
  then have "(if i < 0 then - int n else int n) * 10 ^ nat e = i" by auto
  with f e show thesis by (rule that)
qed

lemma ToIntegerOrInfinity_fromInt: "ToIntegerOrInfinity (fromInt i) = Integer i"
proof -
  obtain m e where "fromInt i = Finite m e" "0 \<le> e" "m * 10 ^ nat e = i" by (rule fromInt_value)
  then show ?thesis by (simp add: ToIntegerOrInfinity_def truncate_integer)
qed

lemma Number_lessThan_fromInt:
  "Number_lessThan (Finite m e) (fromInt i) = Some (finiteValue m e < of_int i)"
  "Number_lessThan (fromInt i) (Finite m e) = Some (of_int i < finiteValue m e)"
proof -
  obtain m' e' where f: "fromInt i = Finite m' e'" and "0 \<le> e'" "m' * 10 ^ nat e' = i"
    by (rule fromInt_value)
  then have "finiteValue m' e' = of_int i" by (simp add: finiteValue_integer)
  then show "Number_lessThan (Finite m e) (fromInt i) = Some (finiteValue m e < of_int i)"
    "Number_lessThan (fromInt i) (Finite m e) = Some (of_int i < finiteValue m e)"
    by (simp_all add: f)
qed

lemma lessThanOrEqual_fromInt: "lessThanOrEqual (fromInt i) (fromInt j) \<longleftrightarrow> i \<le> j"
proof -
  obtain m e where f: "fromInt i = Finite m e" and "0 \<le> e" "m * 10 ^ nat e = i"
    by (rule fromInt_value)
  then have "finiteValue m e = of_int i" by (simp add: finiteValue_integer)
  then show ?thesis
    unfolding lessThanOrEqual_def f Number_lessThan_fromInt by (simp add: not_less)
qed

lemma truncate_le:
  assumes "0 \<le> m"
  shows "0 \<le> truncate' m e" and "of_int (truncate' m e) \<le> finiteValue m e"
proof -
  show "0 \<le> truncate' m e" using assms by (simp add: truncate'_def pos_imp_zdiv_nonneg_iff)
  show "of_int (truncate' m e) \<le> finiteValue m e"
  proof (cases "0 \<le> e")
    case True
    then show ?thesis by (simp add: truncate'_def finiteValue_def)
  next
    case False
    have "(of_int (m div 10 ^ nat (- e)) :: rat) = of_int \<lfloor>(of_int m :: rat) / of_int (10 ^ nat (- e))\<rfloor>"
      by (simp only: floor_divide_of_int_eq)
    also have "\<dots> \<le> of_int m / of_int (10 ^ nat (- e))" by (rule of_int_floor_le)
    finally show ?thesis using False assms by (simp add: truncate'_def finiteValue_def)
  qed
qed

lemma finiteValue_pos: "0 < finiteValue m e \<Longrightarrow> 0 < m"
  by (auto simp: finiteValue_def zero_less_mult_iff zero_less_divide_iff split: if_splits)

lemma slice_from_0:
  "slice xs (fromInt 0) l =
     (case ToIntegerOrInfinity l of
        Integer n \<Rightarrow> if n < 0 then take (length xs - nat (- n)) xs else take (nat n) xs
      | PlusInfinity \<Rightarrow> xs
      | MinusInfinity \<Rightarrow> [])"
proof -
  have z: "ToIntegerOrInfinity (fromInt 0) = Integer 0"
    by (simp add: fromInt_0 ToIntegerOrInfinity_def truncate'_def)
  show ?thesis
  proof (cases "ToIntegerOrInfinity l")
    case (Integer n)
    then show ?thesis
      by (auto simp: slice_def relativeIndex_def z Let_def max_def min_def nat_add_distrib
            nat_diff_distrib' intro!: arg_cong2[where f=take])
  qed (simp_all add: slice_def relativeIndex_def z)
qed

lemma truncate_fraction:
  assumes "lessThan' (fromInt (- 1)) x \<and> lessThan' x (fromInt 1)"
  shows "ToIntegerOrInfinity x = Integer 0"
proof (cases x)
  case (Finite m e)
  with assms have b: "- 1 < finiteValue m e" "finiteValue m e < 1"
    by (simp_all add: lessThan'_def Number_lessThan_fromInt)
  show ?thesis
  proof (cases "0 \<le> e")
    case True
    with b have "(of_int (- 1) :: rat) < of_int (m * 10 ^ nat e)" "(of_int (m * 10 ^ nat e) :: rat) < of_int 1"
      by (simp_all add: finiteValue_def)
    then have "- 1 < m * 10 ^ nat e" "m * 10 ^ nat e < 1" by (simp_all only: of_int_less_iff)
    then have "m * 10 ^ nat e = 0" by arith
    with True show ?thesis by (simp add: Finite ToIntegerOrInfinity_def truncate'_def)
  next
    case False
    let ?d = "(10::int) ^ nat (- e)"
    have d: "0 < ?d" by simp
    then have dr: "(0::rat) < of_int ?d" by (simp only: of_int_0_less_iff)
    from b False have "- 1 < (of_int m :: rat) / of_int ?d" "(of_int m :: rat) / of_int ?d < 1"
      by (simp_all add: finiteValue_def)
    with dr have "(of_int (- ?d) :: rat) < of_int m" "(of_int m :: rat) < of_int ?d"
      by (simp_all add: pos_less_divide_eq pos_divide_less_eq)
    then have m: "- ?d < m" "m < ?d" by (simp_all only: of_int_less_iff)
    have "m div ?d = 0" if "0 \<le> m" using that m(2) by (simp add: div_pos_pos_trivial)
    moreover have "(- m) div ?d = 0" if "m < 0" using that m(1) by (simp add: div_pos_pos_trivial)
    ultimately show ?thesis using False
      by (simp add: Finite ToIntegerOrInfinity_def truncate'_def)
  qed
next
  case NaN
  with assms show ?thesis by (cases "fromInt 1") (simp_all add: lessThan'_def)
next
  case PosInfinity
  with assms show ?thesis by (cases "fromInt 1") (simp_all add: lessThan'_def)
next
  case NegInfinity
  with assms show ?thesis by (cases "fromInt (- 1)") (simp_all add: lessThan'_def)
qed

lemma slice_examples:
  "slice [a, b, c] (fromInt 0) (Finite 15 (- 1)) = [a]"
  "slice [a, b, c] (fromInt 0) (Finite (- 5) (- 1)) = []"
  "slice [a, b, c] (fromInt 0) (Finite (- 15) (- 1)) = [a, b]"
  "slice [a, b, c] (fromInt 0) NaN = []"
  "slice [a, b, c] (fromInt 0) PosInfinity = [a, b, c]"
  by (simp_all add: slice_from_0 ToIntegerOrInfinity_def truncate'_def)

lemma set_slice_subset: "set (slice xs (fromInt 0) l) \<subseteq> set xs"
  by (auto simp: slice_from_0 dest: in_set_takeD split: integerOrInfinity.splits)

lemma length_slice_truncate:
  "0 \<le> m \<Longrightarrow> int (length (slice xs (fromInt 0) (Finite m e))) \<le> truncate' m e"
  using truncate_le(1)[of m e] by (simp add: slice_from_0 ToIntegerOrInfinity_def)

lemma length_slice_le:
  assumes "lessThanOrEqual (fromInt 1) l"
  shows "lessThanOrEqual (fromInt (int (length (slice xs (fromInt 0) l)))) l"
proof (cases l)
  case (Finite m e)
  with assms have "1 \<le> finiteValue m e"
    by (simp add: lessThanOrEqual_def Number_lessThan_fromInt)
  then have m: "0 \<le> m" using finiteValue_pos[of m e] by simp
  have "(of_int (int (length (slice xs (fromInt 0) l))) :: rat) \<le> of_int (truncate' m e)"
    using length_slice_truncate[OF m, of xs e] unfolding Finite by (simp only: of_int_le_iff)
  also have "\<dots> \<le> finiteValue m e" using m by (rule truncate_le)
  finally show ?thesis by (simp add: lessThanOrEqual_def Number_lessThan_fromInt Finite)
next
  case NaN
  with assms show ?thesis
    by (cases "fromInt 1") (simp_all add: lessThanOrEqual_def)
next
  case PosInfinity
  obtain m e where "fromInt (int (length (slice xs (fromInt 0) l))) = Finite m e"
    by (rule fromInt_value)
  with PosInfinity show ?thesis by (simp add: lessThanOrEqual_def)
next
  case NegInfinity
  obtain m e where "fromInt 1 = Finite m e" by (rule fromInt_value)
  with NegInfinity assms show ?thesis by (simp add: lessThanOrEqual_def)
qed

lemma core_withMetadata [simp]: "core (withMetadata inc now item) = core item"
  by (simp add: core_def withMetadata_def)

lemma map_core_items:
  "map core (items (exampleDataOperation clock inp)) = map core (slice (filteredItems inp) (fromInt 0) (limit inp))"
  by (simp add: exampleDataOperation_def Let_def case_prod_unfold comp_def flip: map_map[of core snd, unfolded comp_def])

lemma items_no_metadata:
  "\<not> includeMetadata inp \<Longrightarrow> items (exampleDataOperation clock inp) = slice (filteredItems inp) (fromInt 0) (limit inp)"
  by (simp add: exampleDataOperation_def Let_def withMetadata_def case_prod_unfold)

lemma matchesFilter_sublist:
  "matchesFilter f item \<longleftrightarrow>
     sublist (toLowerCase f) (toLowerCase (title item)) \<or>
     sublist (toLowerCase f) (toLowerCase (description item)) \<or>
     sublist (toLowerCase f) (toLowerCase (category item))"
  by (simp add: matchesFilter_def String_includes_sublist)

lemma matchesFilter_empty [simp]: "matchesFilter [] item"
  by (simp add: matchesFilter_sublist toLowerCase_def)

lemma filteredItems_Some: "filter' inp = Some F \<Longrightarrow> filteredItems inp = filter (matchesFilter F) allItems"
  by (simp add: filteredItems_def)

lemma filteredItems_None: "filter' inp = None \<Longrightarrow> filteredItems inp = allItems"
  by (simp add: filteredItems_def)

lemma inj_on_id_allItems: "inj_on id' (set allItems)"
  by (simp add: allItems_def)

lemma title_core [simp]: "title (core x) = title x" "description (core x) = description x"
  "category (core x) = category x" "id' (core x) = id' x"
  by (simp_all add: core_def)

lemma core_items_subset:
  "core ` set (items (exampleDataOperation clock inp)) \<subseteq> core ` set (filteredItems inp)"
proof -
  have "core ` set (items (exampleDataOperation clock inp)) = set (map core (items (exampleDataOperation clock inp)))"
    by simp
  also have "\<dots> = core ` set (slice (filteredItems inp) (fromInt 0) (limit inp))"
    by (simp only: map_core_items set_map)
  also have "\<dots> \<subseteq> core ` set (filteredItems inp)"
    by (rule image_mono) (rule set_slice_subset)
  finally show ?thesis .
qed

lemma returned_item_origin:
  assumes "x \<in> set (items (exampleDataOperation clock inp))"
  obtains y where "y \<in> set (filteredItems inp)" "core x = core y"
proof -
  from assms have "core x \<in> core ` set (items (exampleDataOperation clock inp))" by (rule imageI)
  then have "core x \<in> core ` set (filteredItems inp)" using core_items_subset[of clock inp] by (rule subsetD[rotated])
  then show thesis using that by (auto simp: image_iff)
qed

lemma filter_matchesFilter_empty: "filter (matchesFilter []) xs = xs"
  by (rule filter_True) simp

lemma length_filteredItems:
  "length (filteredItems inp) =
     (case filter' inp of
        None \<Rightarrow> length allItems
      | Some F \<Rightarrow> length (filter (matchesFilter F) allItems))"
  by (cases "filter' inp") (simp_all add: filteredItems_def filter_matchesFilter_empty)

lemma totalFound_eq: "totalFound (exampleDataOperation clock inp) = length (filteredItems inp)"
  by (simp add: exampleDataOperation_def Let_def)

lemma filteredItems_limit_update: "filteredItems (inp \<lparr> limit := l \<rparr>) = filteredItems inp"
  by (simp add: filteredItems_def)

lemma filter_sample: "filter (matchesFilter ''sample'') allItems = allItems"
  by code_simp

lemma filteredItems_sample:
  "filter' inp = Some ''sample'' \<Longrightarrow> filteredItems inp = allItems"
  by (simp add: filteredItems_def filter_sample)

lemma metadata_allItems:
  "x \<in> set allItems \<Longrightarrow>
     (case metadata x of None \<Rightarrow> True
      | Some m \<Rightarrow> ''processingTime'' \<notin> fst ` set m \<and> ''source'' \<notin> fst ` set m)"
  by (auto simp: allItems_def)

lemma set_filteredItems: "set (filteredItems inp) \<subseteq> set allItems"
  by (auto simp: filteredItems_def split: option.splits)

lemma split_not_Nil [simp]: "split c s \<noteq> []"
  by (induction s) (auto split: list.splits)

lemma split_pieces_subset: "l \<in> set (split c s) \<Longrightarrow> set l \<subseteq> set s"
proof (induction s arbitrary: l)
  case Nil
  then show ?case by simp
next
  case (Cons a s)
  show ?case
  proof (cases "a = c")
    case True
    with Cons show ?thesis by auto
  next
    case False
    obtain p ps where ps: "split c s = p # ps" by (cases "split c s") auto
    with Cons.prems False have "l = a # p \<or> l \<in> set ps" by simp
    then show ?thesis
    proof
      assume "l = a # p"
      moreover have "set p \<subseteq> set s" using Cons.IH[of p] ps by simp
      ultimately show ?thesis by auto
    next
      assume "l \<in> set ps"
      then have "set l \<subseteq> set s" using Cons.IH[of l] ps by simp
      then show ?thesis by auto
    qed
  qed
qed

lemma hd_split_no_sep: "c \<notin> set (hd (split c s))"
  by (induction s) (auto split: list.splits)

lemma hd_split_subset: "set (hd (split c s)) \<subseteq> set s"
  by (rule split_pieces_subset[of _ c]) (simp add: hd_in_set)

lemma split_no_sep: "c \<notin> set s \<Longrightarrow> split c s = [s]"
  by (induction s) auto

lemma split_append_sep: "c \<notin> set x \<Longrightarrow> split c (x @ c # rest) = x # split c rest"
  by (induction x) auto

lemma hd_split_prefix: "c \<notin> set x \<Longrightarrow> hd (split c (x @ y)) = x @ hd (split c y)"
  by (induction x) (auto split: list.splits)

lemma split_join:
  "xs \<noteq> [] \<Longrightarrow> \<forall>x\<in>set xs. c \<notin> set x \<Longrightarrow> split c (join [c] xs) = xs"
proof (induction "[c]" xs rule: join.induct)
  case 1
  then show ?case by simp
next
  case (2 x)
  then show ?case by (simp add: split_no_sep)
next
  case (3 x y ys)
  then show ?case by (simp add: split_append_sep)
qed

lemma prefix_Timezone_T: "prefix ''Timezone:'' l \<Longrightarrow> CHR ''T'' \<in> set l"
  by (auto simp: prefix_def)


lemma length_items:
  "length (items (exampleDataOperation clock inp)) = length (slice (filteredItems inp) (fromInt 0) (limit inp))"
proof -
  have "length (items (exampleDataOperation clock inp)) =
        length (map core (items (exampleDataOperation clock inp)))"
    by simp
  also have "\<dots> = length (slice (filteredItems inp) (fromInt 0) (limit inp))"
    by (simp only: map_core_items length_map)
  finally show ?thesis .
qed

lemma items_noFilterInput: "items (exampleDataOperation fixedClock noFilterInput) = take 2 allItems"
  by code_simp

lemma items_demoInput: "map id' (items (exampleDataOperation fixedClock demoInput)) = [''3'']"
  by code_simp

section \<open>The data lookup\<close>

text \<open>
  C1. With a filter text \<open>F\<close>, every returned item has \<open>F\<close> as a substring of
  its title, description or category, letter case ignored, and a fixture item
  that has not is not returned. Without a filter the fixture is returned up to
  the limit: the items are those of the slice of the fixture, and equal to them
  when no metadata is added.
\<close>

theorem filter_returns_matching_items:
  "(filter' inp = Some F \<longrightarrow>
      (\<forall>x\<in>set (items (exampleDataOperation clock inp)).
          sublist (toLowerCase F) (toLowerCase (title x)) \<or>
          sublist (toLowerCase F) (toLowerCase (description x)) \<or>
          sublist (toLowerCase F) (toLowerCase (category x))) \<and>
      (\<forall>y\<in>set allItems.
          \<not> (sublist (toLowerCase F) (toLowerCase (title y)) \<or>
             sublist (toLowerCase F) (toLowerCase (description y)) \<or>
             sublist (toLowerCase F) (toLowerCase (category y))) \<longrightarrow>
          id' y \<notin> id' ` set (items (exampleDataOperation clock inp)))) \<and>
   (filter' inp = None \<longrightarrow>
      map core (items (exampleDataOperation clock inp)) = map core (slice allItems (fromInt 0) (limit inp)) \<and>
      (\<not> includeMetadata inp \<longrightarrow> items (exampleDataOperation clock inp) = slice allItems (fromInt 0) (limit inp)))"
proof (intro conjI impI ballI)
  fix x assume F: "filter' inp = Some F" and x: "x \<in> set (items (exampleDataOperation clock inp))"
  from x obtain y where y: "y \<in> set (filteredItems inp)" and c: "core x = core y"
    by (rule returned_item_origin)
  from y F have "matchesFilter F y" by (simp add: filteredItems_Some)
  then have "matchesFilter F (core y)" by (simp add: matchesFilter_sublist)
  then have "matchesFilter F (core x)" by (simp add: c)
  then show "sublist (toLowerCase F) (toLowerCase (title x)) \<or>
          sublist (toLowerCase F) (toLowerCase (description x)) \<or>
          sublist (toLowerCase F) (toLowerCase (category x))"
    by (simp add: matchesFilter_sublist)
next
  fix y assume F: "filter' inp = Some F" and y: "y \<in> set allItems"
    and n: "\<not> (sublist (toLowerCase F) (toLowerCase (title y)) \<or>
             sublist (toLowerCase F) (toLowerCase (description y)) \<or>
             sublist (toLowerCase F) (toLowerCase (category y)))"
  show "id' y \<notin> id' ` set (items (exampleDataOperation clock inp))"
  proof
    assume "id' y \<in> id' ` set (items (exampleDataOperation clock inp))"
    then obtain x where x: "x \<in> set (items (exampleDataOperation clock inp))" and i: "id' y = id' x"
      by blast
    from x obtain z where z: "z \<in> set (filteredItems inp)" and c: "core x = core z"
      by (rule returned_item_origin)
    from z F have zA: "z \<in> set allItems" and m: "matchesFilter F z"
      by (simp_all add: filteredItems_Some)
    have "id' x = id' z" using arg_cong[OF c, of id'] by simp
    with i have "id' y = id' z" by simp
    with y zA have "y = z" using inj_on_id_allItems by (auto dest: inj_onD)
    with m n show False by (simp add: matchesFilter_sublist)
  qed
next
  assume "filter' inp = None"
  then show "map core (items (exampleDataOperation clock inp)) = map core (slice allItems (fromInt 0) (limit inp))"
    by (simp add: map_core_items filteredItems_None)
next
  assume "filter' inp = None" "\<not> includeMetadata inp"
  then show "items (exampleDataOperation clock inp) = slice allItems (fromInt 0) (limit inp)"
    by (simp add: items_no_metadata filteredItems_None)
qed

theorem filter_returns_matching_items_witness:
  "filter' demoInput = Some ''TEST'' \<and>
   map id' (items (exampleDataOperation fixedClock demoInput)) = [''3''] \<and>
   list_all (\<lambda>x. sublist (toLowerCase ''TEST'') (toLowerCase (title x)) \<or>
                  sublist (toLowerCase ''TEST'') (toLowerCase (description x)) \<or>
                  sublist (toLowerCase ''TEST'') (toLowerCase (category x)))
     (items (exampleDataOperation fixedClock demoInput)) \<and>
   list_all (\<lambda>y. sublist (toLowerCase ''TEST'') (toLowerCase (title y)) \<or>
                  sublist (toLowerCase ''TEST'') (toLowerCase (description y)) \<or>
                  sublist (toLowerCase ''TEST'') (toLowerCase (category y)) \<or>
                  id' y \<notin> id' ` set (items (exampleDataOperation fixedClock demoInput)))
     allItems \<and>
   filter' noFilterInput = None \<and> \<not> includeMetadata noFilterInput \<and>
   items (exampleDataOperation fixedClock noFilterInput) = take 2 allItems"
proof -
  have f: "filter' demoInput = Some ''TEST''" by (simp add: demoInput_def)
  have n: "filter' noFilterInput = None" "\<not> includeMetadata noFilterInput"
    by (simp_all add: noFilterInput_def)
  show ?thesis
    using filter_returns_matching_items[of demoInput "''TEST''" fixedClock] f n
      items_demoInput items_noFilterInput
    by (simp add: list_all_iff) blast
qed

text \<open>
  C2. For a limit \<open>L\<close> from 1 to 100, whole or not, the handler of \<open>get_data\<close>
  answers with the rendering of a result that has at most \<open>L\<close> items; for
  a whole \<open>L\<close> the count is at most that integer.
\<close>

theorem get_data_at_most_limit_items:
  "lessThanOrEqual (fromInt 1) (limit input) \<Longrightarrow> lessThanOrEqual (limit input) (fromInt 100) \<Longrightarrow>
   (\<exists>result.
      result = exampleDataOperation clock \<lparr> limit = limit input, filter' = filter' input,
                                            includeMetadata = includeMetadata input \<rparr> \<and>
      get_data_handler clock input =
        Inr \<lparr> content = [\<lparr> type' = ''text'',
                           text' = formatResponse (json_of_result result) (Some (outputMode input)) \<rparr>] \<rparr> \<and>
      lessThanOrEqual (fromInt (int (length (items result)))) (limit input) \<and>
      (\<forall>i. limit input = fromInt i \<longrightarrow> int (length (items result)) \<le> i))"
proof -
  assume a: "lessThanOrEqual (fromInt 1) (limit input)"
  let ?inp = "\<lparr> limit = limit input, filter' = filter' input, includeMetadata = includeMetadata input \<rparr>"
  have l: "lessThanOrEqual (fromInt (int (length (items (exampleDataOperation clock ?inp))))) (limit ?inp)"
    unfolding length_items using a by (intro length_slice_le) simp
  then have "int (length (items (exampleDataOperation clock ?inp))) \<le> i" if "limit input = fromInt i" for i
    using that by (simp add: lessThanOrEqual_fromInt)
  with l show ?thesis
    by (simp add: get_data_handler_def get_data_handler_with_def)
qed

theorem get_data_at_most_limit_items_witness:
  "get_data_schema \<lparr> limit_arg = Some (fromInt 2), filter_arg = None, includeMetadata_arg = None,
                     outputMode_arg = Some CompactJson \<rparr> = Some twoItemsInput \<and>
   lessThanOrEqual (fromInt 1) (limit twoItemsInput) \<and>
   lessThanOrEqual (limit twoItemsInput) (fromInt 100) \<and>
   (\<exists>result.
      result = exampleDataOperation fixedClock
                 \<lparr> limit = limit twoItemsInput, filter' = filter' twoItemsInput,
                   includeMetadata = includeMetadata twoItemsInput \<rparr> \<and>
      get_data_handler fixedClock twoItemsInput =
        Inr \<lparr> content = [\<lparr> type' = ''text'',
                           text' = formatResponse (json_of_result result)
                                     (Some (outputMode twoItemsInput)) \<rparr>] \<rparr> \<and>
      lessThanOrEqual (fromInt (int (length (items result)))) (limit twoItemsInput) \<and>
      int (length (items result)) \<le> 2)"
proof -
  have e: "limit twoItemsInput = fromInt 2" by (simp add: twoItemsInput_def)
  have t: "fromInt 2 = Finite 2 0" by code_simp
  have c: "\<not> lessThan' (Finite 2 0) (fromInt 1)" "\<not> lessThan' (fromInt 100) (Finite 2 0)"
    by (simp_all add: lessThan'_def Number_lessThan_fromInt finiteValue_def)
  have s: "get_data_schema \<lparr> limit_arg = Some (fromInt 2), filter_arg = None, includeMetadata_arg = None,
                     outputMode_arg = Some CompactJson \<rparr> = Some twoItemsInput"
    using c by (simp add: get_data_schema_def twoItemsInput_def t)
  have l: "lessThanOrEqual (fromInt 1) (limit twoItemsInput)"
    "lessThanOrEqual (limit twoItemsInput) (fromInt 100)"
    by (simp_all add: twoItemsInput_def t lessThanOrEqual_def Number_lessThan_fromInt finiteValue_def)
  from get_data_at_most_limit_items[OF l, of fixedClock] e s l show ?thesis
    by blast
qed

text \<open>
  C3. \<open>totalFound\<close> is the number of fixture items that match the filter (all of
  them without a filter), counted before the limit is applied, and a different
  limit does not change it.
\<close>

theorem totalFound_counts_matches:
  "totalFound (exampleDataOperation clock inp) =
     (case filter' inp of
        None \<Rightarrow> length allItems
      | Some F \<Rightarrow> length (filter (\<lambda>x. sublist (toLowerCase F) (toLowerCase (title x)) \<or>
                                   sublist (toLowerCase F) (toLowerCase (description x)) \<or>
                                   sublist (toLowerCase F) (toLowerCase (category x))) allItems)) \<and>
   totalFound (exampleDataOperation clock' (inp \<lparr> limit := l \<rparr>)) = totalFound (exampleDataOperation clock inp)"
proof
  have "matchesFilter F = (\<lambda>x. sublist (toLowerCase F) (toLowerCase (title x)) \<or>
                                   sublist (toLowerCase F) (toLowerCase (description x)) \<or>
                                   sublist (toLowerCase F) (toLowerCase (category x)))" for F
    by (rule ext) (rule matchesFilter_sublist)
  then show "totalFound (exampleDataOperation clock inp) =
     (case filter' inp of
        None \<Rightarrow> length allItems
      | Some F \<Rightarrow> length (filter (\<lambda>x. sublist (toLowerCase F) (toLowerCase (title x)) \<or>
                                   sublist (toLowerCase F) (toLowerCase (description x)) \<or>
                                   sublist (toLowerCase F) (toLowerCase (category x))) allItems))"
    by (simp only: totalFound_eq length_filteredItems)
  show "totalFound (exampleDataOperation clock' (inp \<lparr> limit := l \<rparr>)) = totalFound (exampleDataOperation clock inp)"
    by (simp only: totalFound_eq filteredItems_limit_update)
qed

text \<open>
  C4. With limit 2 and filter \<open>sample\<close> two items are returned, and
  \<open>totalFound\<close> is 3: the description of each of the three fixture items
  contains \<open>sample\<close>.
\<close>

theorem sample_limit_two:
  "length (items (exampleDataOperation clock \<lparr> limit = fromInt 2, filter' = Some ''sample'', includeMetadata = b \<rparr>)) = 2 \<and>
   totalFound (exampleDataOperation clock \<lparr> limit = fromInt 2, filter' = Some ''sample'', includeMetadata = b \<rparr>) = 3"
proof -
  let ?inp = "\<lparr> limit = fromInt 2, filter' = Some ''sample'', includeMetadata = b \<rparr>"
  have f: "filteredItems ?inp = allItems" by (rule filteredItems_sample) simp
  have "length (items (exampleDataOperation clock ?inp)) = length (map core (items (exampleDataOperation clock ?inp)))"
    by simp
  also have "\<dots> = length (slice (filteredItems ?inp) (fromInt 0) (limit ?inp))"
    by (simp only: map_core_items length_map)
  also have "\<dots> = 2" by (simp add: f slice_from_0 ToIntegerOrInfinity_fromInt allItems_def)
  finally show ?thesis by (simp add: totalFound_eq f allItems_def)
qed

text \<open>The count is not 2, as it would be if only two items contained \<open>sample\<close>.\<close>

theorem sample_totalFound_two_counterexample:
  "\<not> (length (items (exampleDataOperation fixedClock sampleInput)) \<le> 2 \<and>
      totalFound (exampleDataOperation fixedClock sampleInput) = 2)"
  by (simp add: totalFound_eq filteredItems_sample sampleInput_def allItems_def)

text \<open>
  C8. Without \<open>includeMetadata\<close> the returned items are the selected fixture
  items themselves, metadata included, and none of them has a
  \<open>processingTime\<close> or a \<open>source\<close> entry.
\<close>

theorem no_metadata_added:
  "\<not> includeMetadata inp \<Longrightarrow>
     items (exampleDataOperation clock inp) = slice (filteredItems inp) (fromInt 0) (limit inp) \<and>
     (\<forall>x\<in>set (items (exampleDataOperation clock inp)).
        x \<in> set allItems \<and>
        (case metadata x of None \<Rightarrow> True
         | Some m \<Rightarrow> ''processingTime'' \<notin> fst ` set m \<and> ''source'' \<notin> fst ` set m))"
proof (intro conjI ballI)
  assume n: "\<not> includeMetadata inp"
  then show i: "items (exampleDataOperation clock inp) = slice (filteredItems inp) (fromInt 0) (limit inp)"
    by (rule items_no_metadata)
  fix x assume "x \<in> set (items (exampleDataOperation clock inp))"
  with i have "x \<in> set (slice (filteredItems inp) (fromInt 0) (limit inp))" by simp
  then have "x \<in> set (filteredItems inp)" using set_slice_subset by (rule subsetD[rotated])
  then show a: "x \<in> set allItems" using set_filteredItems by (rule subsetD[rotated])
  then show "case metadata x of None \<Rightarrow> True
         | Some m \<Rightarrow> ''processingTime'' \<notin> fst ` set m \<and> ''source'' \<notin> fst ` set m"
    by (rule metadata_allItems)
qed

theorem no_metadata_added_witness:
  "\<not> includeMetadata noFilterInput \<and>
   items (exampleDataOperation fixedClock noFilterInput) = take 2 allItems \<and>
   items (exampleDataOperation fixedClock noFilterInput) =
     slice (filteredItems noFilterInput) (fromInt 0) (limit noFilterInput) \<and>
   list_all (\<lambda>x. x \<in> set allItems \<and>
                  (case metadata x of None \<Rightarrow> True
                   | Some m \<Rightarrow> ''processingTime'' \<notin> fst ` set m \<and> ''source'' \<notin> fst ` set m))
     (items (exampleDataOperation fixedClock noFilterInput))"
proof -
  have n: "\<not> includeMetadata noFilterInput" by (simp add: noFilterInput_def)
  from no_metadata_added[OF n, of fixedClock] n items_noFilterInput show ?thesis
    by (simp add: list_all_iff)
qed

section \<open>The store model\<close>

lemma alloc_eq: "alloc ob h = (v, h') \<longleftrightarrow> v = Ref (length h) \<and> h' = h @ [ob]"
  by (auto simp: alloc_def)

lemma properties_mono: "properties h v = Some ps \<Longrightarrow> prefix h h' \<Longrightarrow> properties h' v = Some ps"
  by (auto simp: properties_def prefix_def nth_append split: val.splits if_splits)

lemma elements_mono: "elements h v = Some vs \<Longrightarrow> prefix h h' \<Longrightarrow> elements h' v = Some vs"
  by (auto simp: elements_def prefix_def nth_append split: val.splits if_splits)

lemma get_mono: "get h v k = Some x \<Longrightarrow> prefix h h' \<Longrightarrow> get h' v k = Some x"
  by (auto simp: get_def dest: properties_mono)

lemma those_map_cong:
  "those (map f xs) = Some ys \<Longrightarrow> (\<And>x y. x \<in> set xs \<Longrightarrow> f x = Some y \<Longrightarrow> g x = Some y) \<Longrightarrow>
   those (map g xs) = Some ys"
proof (induction xs arbitrary: ys)
  case Nil
  then show ?case by simp
next
  case (Cons x xs)
  from Cons.prems(1) obtain y ys' where y: "f x = Some y" and ys': "those (map f xs) = Some ys'"
    and e: "ys = y # ys'"
    by (auto split: option.splits)
  have "g x = Some y" using Cons.prems(2)[of x y] y by simp
  moreover have "those (map g xs) = Some ys'" using Cons.IH[OF ys'] Cons.prems(2) by simp
  ultimately show ?case using e by simp
qed

lemma read_json_mono:
  "read_json n h v = Some j \<Longrightarrow> prefix h h' \<Longrightarrow> read_json n h' v = Some j"
proof (induction n arbitrary: v j)
  case 0
  then show ?case by simp
next
  case (Suc n)
  show ?case
  proof (cases v)
    case (Ref a)
    with Suc.prems have a: "a < length h" by (auto split: if_splits)
    with Suc.prems(2) have a': "a < length h'" and e: "h' ! a = h ! a"
      by (auto simp: prefix_def nth_append)
    show ?thesis
    proof (cases "h ! a")
      case (Obj ps)
      with Suc.prems(1) Ref a obtain js where
        js: "those (map (\<lambda>(k, x). map_option (Pair k) (read_json n h x)) ps) = Some js" and j: "j = JObject js"
        by auto
      have "those (map (\<lambda>(k, x). map_option (Pair k) (read_json n h' x)) ps) = Some js"
        using js
      proof (rule those_map_cong)
        fix p y assume "p \<in> set ps" and c: "(case p of (k, x) \<Rightarrow> map_option (Pair k) (read_json n h x)) = Some y"
        obtain k x where p: "p = (k, x)" by (cases p)
        with c obtain j' where r: "read_json n h x = Some j'" and y: "y = (k, j')"
          by auto
        from r have "read_json n h' x = Some j'" using Suc.prems(2) by (rule Suc.IH)
        then show "(case p of (k, x) \<Rightarrow> map_option (Pair k) (read_json n h' x)) = Some y"
          by (simp add: p y)
      qed
      then show ?thesis using Ref a' e Obj j by simp
    next
      case (Arr vs)
      with Suc.prems(1) Ref a obtain js where
        js: "those (map (read_json n h) vs) = Some js" and j: "j = JArray js"
        by auto
      have "those (map (read_json n h') vs) = Some js"
        using js by (rule those_map_cong) (rule Suc.IH[OF _ Suc.prems(2)])
      then show ?thesis using Ref a' e Arr j by simp
    qed
  qed (use Suc.prems in auto)
qed

lemma read_metadata_mono:
  "read_metadata h v = Some m \<Longrightarrow> prefix h h' \<Longrightarrow> read_metadata h' v = Some m"
  by (cases v) (auto simp: read_metadata_def split: option.splits json.splits dest: read_json_mono)

lemma read_item_mono:
  assumes "read_item h v = Some x" and p: "prefix h h'"
  shows "read_item h' v = Some x"
proof -
  from assms(1) obtain ps m where ps: "properties h v = Some ps"
    and m: "read_metadata h (getProperty ps ''metadata'') = Some m"
    and r: "(do {
       i \<leftarrow> toStr (getProperty ps ''id'');
       t \<leftarrow> toStr (getProperty ps ''title'');
       d \<leftarrow> toStr (getProperty ps ''description'');
       c \<leftarrow> toStr (getProperty ps ''category'');
       m \<leftarrow> Some m;
       ca \<leftarrow> toStr (getProperty ps ''createdAt'');
       ua \<leftarrow> toStr (getProperty ps ''updatedAt'');
       Some \<lparr> id' = i, title = t, description = d, category = c, metadata = m,
              createdAt = ca, updatedAt = ua \<rparr>
     }) = Some x"
    by (auto simp: read_item_def split: Option.bind_splits)
  from ps p have "properties h' v = Some ps" by (rule properties_mono)
  moreover from m p have "read_metadata h' (getProperty ps ''metadata'') = Some m"
    by (rule read_metadata_mono)
  ultimately show ?thesis using r by (simp add: read_item_def)
qed

lemma read_item_fields:
  assumes "read_item h v = Some x"
  obtains ps where "properties h v = Some ps"
    "toStr (getProperty ps ''id'') = Some (id' x)"
    "toStr (getProperty ps ''title'') = Some (title x)"
    "toStr (getProperty ps ''description'') = Some (description x)"
    "toStr (getProperty ps ''category'') = Some (category x)"
    "read_metadata h (getProperty ps ''metadata'') = Some (metadata x)"
    "toStr (getProperty ps ''createdAt'') = Some (createdAt x)"
    "toStr (getProperty ps ''updatedAt'') = Some (updatedAt x)"
  using assms by (auto simp: read_item_def split: Option.bind_splits)

lemma read_item_intro:
  assumes "properties h v = Some ps"
    "toStr (getProperty ps ''id'') = Some (id' x)"
    "toStr (getProperty ps ''title'') = Some (title x)"
    "toStr (getProperty ps ''description'') = Some (description x)"
    "toStr (getProperty ps ''category'') = Some (category x)"
    "read_metadata h (getProperty ps ''metadata'') = Some (metadata x)"
    "toStr (getProperty ps ''createdAt'') = Some (createdAt x)"
    "toStr (getProperty ps ''updatedAt'') = Some (updatedAt x)"
  shows "read_item h v = Some x"
  using assms by (simp add: read_item_def)

lemma matchesFilter_h_correct:
  assumes "read_item h v = Some x"
  shows "matchesFilter_h h f v = Some (matchesFilter f x)"
proof -
  from assms obtain ps where ps: "properties h v = Some ps"
    and "toStr (getProperty ps ''title'') = Some (title x)"
    and "toStr (getProperty ps ''description'') = Some (description x)"
    and "toStr (getProperty ps ''category'') = Some (category x)"
    by (rule read_item_fields)
  then have "get h v ''title'' \<bind> toStr = Some (title x)"
    "get h v ''description'' \<bind> toStr = Some (description x)"
    "get h v ''category'' \<bind> toStr = Some (category x)"
    by (simp_all add: get_def)
  then show ?thesis by (simp add: matchesFilter_h_def matchesFilter_def)
qed

lemma filter_h_correct:
  assumes "list_all2 (\<lambda>v x. read_item h v = Some x) vs xs"
  shows "\<exists>vs'. filter_h (matchesFilter_h h f) vs = Some vs' \<and>
               list_all2 (\<lambda>v x. read_item h v = Some x) vs' (filter (matchesFilter f) xs)"
  using assms
proof (induction rule: list_all2_induct)
  case Nil
  then show ?case by simp
next
  case (Cons v vs x xs)
  then show ?case by (auto simp: matchesFilter_h_correct)
qed

lemma list_all2_slice:
  assumes "list_all2 P vs xs"
  shows "list_all2 P (slice vs (fromInt 0) l) (slice xs (fromInt 0) l)"
proof -
  from assms have "length vs = length xs" by (rule list_all2_lengthD)
  then show ?thesis using assms
    by (auto simp: slice_from_0 intro: list_all2_takeI split: integerOrInfinity.splits)
qed

lemma read_json_numeral:
  "read_json (numeral k) h v =
     (case v of
        Undefined \<Rightarrow> None
      | Str s \<Rightarrow> Some (JString s)
      | Num i \<Rightarrow> Some (JNumber i)
      | Bool b \<Rightarrow> Some (JBool b)
      | Ref a \<Rightarrow>
          (if a < length h then
             (case h ! a of
                Arr vs \<Rightarrow> map_option JArray (those (map (read_json (pred_numeral k) h) vs))
              | Obj ps \<Rightarrow>
                  map_option JObject
                    (those (map (\<lambda>(k', x). map_option (Pair k') (read_json (pred_numeral k) h x)) ps)))
           else None))"
  by (simp add: numeral_eq_Suc)

lemma fixture_read:
  assumes "allItems_h h0 = (arr, h1)"
  shows "prefix h0 h1 \<and>
         (\<exists>vs. elements h1 arr = Some vs \<and> list_all2 (\<lambda>v x. read_item h1 v = Some x) vs allItems)"
proof -
  define i1 where "i1 = length h0"
  define i2 where "i2 = length h0 + 1"
  define tg where "tg = length h0 + 2"
  define md where "md = length h0 + 3"
  define i3 where "i3 = length h0 + 4"
  define ar where "ar = length h0 + 5"
  from assms have p: "prefix h0 h1" and arr: "arr = Ref ar"
    and len: "i1 < length h1" "i2 < length h1" "tg < length h1" "md < length h1" "i3 < length h1"
      "ar < length h1"
    and t5: "h1 ! ar = Arr [Ref i1, Ref i2, Ref i3]"
    and t0: "h1 ! i1 = Obj [(''id'', Str ''1''),
                                    (''title'', Str ''Example Item 1''),
                                    (''description'', Str ''This is a sample item for demonstration''),
                                    (''category'', Str ''sample''),
                                    (''createdAt'', Str ''2024-01-01T00:00:00Z''),
                                    (''updatedAt'', Str ''2024-01-01T00:00:00Z'')]"
    and t1: "h1 ! i2 = Obj [(''id'', Str ''2''),
                                    (''title'', Str ''Example Item 2''),
                                    (''description'', Str ''Another sample item with different category''),
                                    (''category'', Str ''demo''),
                                    (''createdAt'', Str ''2024-01-02T00:00:00Z''),
                                    (''updatedAt'', Str ''2024-01-02T00:00:00Z'')]"
    and t2: "h1 ! tg = Arr [Str ''important'', Str ''featured'']"
    and t3: "h1 ! md = Obj [(''tags'', Ref tg)]"
    and t4: "h1 ! i3 = Obj [(''id'', Str ''3''),
                                    (''title'', Str ''Example Item 3''),
                                    (''description'', Str ''Third sample item for testing filters''),
                                    (''category'', Str ''test''),
                                    (''metadata'', Ref md),
                                    (''createdAt'', Str ''2024-01-03T00:00:00Z''),
                                    (''updatedAt'', Str ''2024-01-03T00:00:00Z'')]"
    unfolding i1_def i2_def tg_def md_def i3_def ar_def
    by (auto simp: allItems_h_def alloc_def Let_def nth_append)
  have e: "elements h1 arr = Some [Ref i1, Ref i2, Ref i3]"
    by (simp add: elements_def arr len t5)
  have m: "read_metadata h1 (Ref md) =
             Some (Some [(''tags'', JArray [JString ''important'', JString ''featured''])])"
    by (simp add: read_metadata_def read_json_numeral len t3 t2)
  have r0: "read_item h1 (Ref i1) = Some (allItems ! 0)"
    by (simp add: read_item_def properties_def len t0 getProperty_def toStr_def read_metadata_def allItems_def)
  have r1: "read_item h1 (Ref i2) = Some (allItems ! 1)"
    by (simp add: read_item_def properties_def len t1 getProperty_def toStr_def read_metadata_def allItems_def)
  have r2: "read_item h1 (Ref i3) = Some (allItems ! 2)"
    by (simp add: read_item_def properties_def len t4 getProperty_def toStr_def m allItems_def)
  have "list_all2 (\<lambda>v x. read_item h1 v = Some x)
          [Ref i1, Ref i2, Ref i3] [allItems ! 0, allItems ! 1, allItems ! 2]"
    using r0 r1 r2 by simp
  moreover have "[allItems ! 0, allItems ! 1, allItems ! 2] = allItems" by (simp add: allItems_def)
  ultimately have "list_all2 (\<lambda>v x. read_item h1 v = Some x) [Ref i1, Ref i2, Ref i3] allItems"
    by (simp only:)
  with e p show ?thesis by blast
qed

lemma getProperty_setProperty:
  "getProperty (setProperty k v ps) k' = (if k' = k then v else getProperty ps k')"
  by (induction ps) (auto simp: getProperty_def)

lemma those_map_setProperty:
  assumes "those (map (\<lambda>(k, x). map_option (Pair k) (rd x)) ps) = Some js" and "rd v = Some j"
  shows "those (map (\<lambda>(k, x). map_option (Pair k) (rd x)) (setProperty key v ps)) =
           Some (setProperty key j js)"
  using assms
proof (induction ps arbitrary: js)
  case Nil
  then show ?case by simp
next
  case (Cons p ps)
  obtain k x where p: "p = (k, x)" by (cases p)
  from Cons.prems(1) p obtain y js' where y: "rd x = Some y"
    and js': "those (map (\<lambda>(k, x). map_option (Pair k) (rd x)) ps) = Some js'"
    and js: "js = (k, y) # js'"
    by (auto split: option.splits)
  show ?case
  proof (cases "k = key")
    case True
    then show ?thesis using p y js' js Cons.prems(2) by simp
  next
    case False
    then show ?thesis using p y js Cons.IH[OF js' Cons.prems(2)] by simp
  qed
qed

lemma metadata_props:
  assumes "read_metadata h vm = Some mo"
  shows "\<exists>ms. (case vm of Undefined \<Rightarrow> Some [] | _ \<Rightarrow> properties h vm) = Some ms \<and>
              those (map (\<lambda>(k, x). map_option (Pair k) (read_json 2 h x)) ms) =
                Some (case mo of None \<Rightarrow> [] | Some m \<Rightarrow> m)"
proof (cases vm)
  case Undefined
  with assms show ?thesis by (simp add: read_metadata_def)
next
  case (Ref a)
  with assms obtain m where j: "read_json 3 h (Ref a) = Some (JObject m)" and mo: "mo = Some m"
    by (auto simp: read_metadata_def split: option.splits json.splits)
  from j have a: "a < length h" by (auto simp: read_json_numeral split: if_splits)
  with j obtain ms where ms: "h ! a = Obj ms"
    and t: "those (map (\<lambda>(k, x). map_option (Pair k) (read_json 2 h x)) ms) = Some m"
    by (cases "h ! a") (auto simp: read_json_numeral)
  then show ?thesis using Ref a mo by (simp add: properties_def)
qed (use assms in \<open>auto simp: read_metadata_def read_json_numeral\<close>)

lemma read_json_Str: "0 < n \<Longrightarrow> read_json n h (Str s) = Some (JString s)"
  by (cases n) auto

lemma copyWithMetadata_correct:
  assumes r: "read_item h v = Some x" and inc: "get h input ''includeMetadata'' = Some (Bool b)"
  shows "\<exists>a h'. copyWithMetadata h input now v = Some (Ref a, h') \<and> length h \<le> a \<and> prefix h h' \<and>
                read_item h' (Ref a) = Some (withMetadata b now x)"
proof -
  from r obtain ps where ps: "properties h v = Some ps"
    and f: "toStr (getProperty ps ''id'') = Some (id' x)"
    "toStr (getProperty ps ''title'') = Some (title x)"
    "toStr (getProperty ps ''description'') = Some (description x)"
    "toStr (getProperty ps ''category'') = Some (category x)"
    "toStr (getProperty ps ''createdAt'') = Some (createdAt x)"
    "toStr (getProperty ps ''updatedAt'') = Some (updatedAt x)"
    and m: "read_metadata h (getProperty ps ''metadata'') = Some (metadata x)"
    by (rule read_item_fields)
  show ?thesis
  proof (cases b)
    case False
    let ?ps' = "setProperty ''metadata'' (getProperty ps ''metadata'') ps"
    let ?h' = "h @ [Obj ?ps']"
    have c: "copyWithMetadata h input now v = Some (Ref (length h), ?h')"
      using ps inc False by (simp add: copyWithMetadata_def truthy_def alloc_def)
    have p: "prefix h ?h'" by simp
    have "read_item ?h' (Ref (length h)) = Some x"
    proof (rule read_item_intro)
      show "properties ?h' (Ref (length h)) = Some ?ps'" by (simp add: properties_def)
      show "read_metadata ?h' (getProperty ?ps' ''metadata'') = Some (metadata x)"
        using read_metadata_mono[OF m p] by (simp add: getProperty_setProperty)
    qed (simp_all add: getProperty_setProperty f)
    moreover have "withMetadata b now x = x" using False by (simp add: withMetadata_def)
    ultimately show ?thesis using c p by auto
  next
    case True
    from metadata_props[OF m] obtain ms where
      ms: "(case getProperty ps ''metadata'' of Undefined \<Rightarrow> Some [] | _ \<Rightarrow> properties h (getProperty ps ''metadata'')) = Some ms"
      and t: "those (map (\<lambda>(k, x). map_option (Pair k) (read_json 2 h x)) ms) =
                Some (case metadata x of None \<Rightarrow> [] | Some m \<Rightarrow> m)"
      by blast
    let ?m0 = "case metadata x of None \<Rightarrow> [] | Some m \<Rightarrow> m"
    let ?M = "setProperty ''source'' (Str ''example-data-source'') (setProperty ''processingTime'' (Str now) ms)"
    let ?J = "setProperty ''source'' (JString ''example-data-source'') (setProperty ''processingTime'' (JString now) ?m0)"
    let ?ps' = "setProperty ''metadata'' (Ref (length h)) ps"
    let ?h' = "h @ [Obj ?M, Obj ?ps']"
    have ms': "(case getProperty ps ''metadata'' of Undefined \<Rightarrow> Some [] | Str s \<Rightarrow> properties h (Str s)
                | Num n \<Rightarrow> properties h (Num n) | Bool b \<Rightarrow> properties h (Bool b)
                | Ref a \<Rightarrow> properties h (Ref a)) = Some ms"
      using ms by (cases "getProperty ps ''metadata''") simp_all
    have c: "copyWithMetadata h input now v = Some (Ref (Suc (length h)), ?h')"
      using ps inc True ms ms' by (simp add: copyWithMetadata_def truthy_def alloc_def)
    have p: "prefix h ?h'" by simp
    have "those (map (\<lambda>(k, x). map_option (Pair k) (read_json 2 ?h' x)) ms) = Some ?m0"
      using t
    proof (rule those_map_cong)
      fix q y assume "q \<in> set ms" and c: "(case q of (k, x) \<Rightarrow> map_option (Pair k) (read_json 2 h x)) = Some y"
      obtain k z where q: "q = (k, z)" by (cases q)
      with c obtain j where rj: "read_json 2 h z = Some j" and y: "y = (k, j)" by auto
      from rj p have "read_json 2 ?h' z = Some j" by (rule read_json_mono)
      then show "(case q of (k, x) \<Rightarrow> map_option (Pair k) (read_json 2 ?h' x)) = Some y"
        by (simp add: q y)
    qed
    then have "those (map (\<lambda>(k, x). map_option (Pair k) (read_json 2 ?h' x))
                       (setProperty ''processingTime'' (Str now) ms)) =
                 Some (setProperty ''processingTime'' (JString now) ?m0)"
      by (rule those_map_setProperty) (simp add: read_json_Str)
    then have "those (map (\<lambda>(k, x). map_option (Pair k) (read_json 2 ?h' x)) ?M) = Some ?J"
      by (rule those_map_setProperty) (simp add: read_json_Str)
    then have j: "read_metadata ?h' (Ref (length h)) = Some (Some ?J)"
      by (simp add: read_metadata_def read_json_numeral)
    have "read_item ?h' (Ref (Suc (length h))) = Some (withMetadata b now x)"
    proof (rule read_item_intro)
      show "properties ?h' (Ref (Suc (length h))) = Some ?ps'" by (simp add: properties_def nth_append)
      show "read_metadata ?h' (getProperty ?ps' ''metadata'') = Some (metadata (withMetadata b now x))"
        using j True by (simp add: getProperty_setProperty withMetadata_def)
    qed (simp_all add: getProperty_setProperty f withMetadata_def)
    then show ?thesis using c p by auto
  qed
qed

lemma list_all2_read_item_mono:
  "list_all2 (\<lambda>v x. read_item h v = Some x) vs xs \<Longrightarrow> prefix h h' \<Longrightarrow>
   list_all2 (\<lambda>v x. read_item h' v = Some x) vs xs"
  by (erule list_all2_mono) (rule read_item_mono)

lemma those_map_list_all2:
  "list_all2 (\<lambda>v x. f v = Some x) vs xs \<Longrightarrow> those (map f vs) = Some xs"
  by (induction rule: list_all2_induct) auto

lemma map_h_correct:
  assumes "list_all2 (\<lambda>v x. read_item h v = Some x) vs xs"
    and "get h input ''includeMetadata'' = Some (Bool b)"
  shows "\<exists>vs' h'. map_h input clock k vs h = Some (vs', h') \<and> prefix h h' \<and>
           list_all2 (\<lambda>v x. read_item h' v = Some x) vs'
             (map (\<lambda>(k, item). withMetadata b (clock k) item) (enumerate k xs)) \<and>
           (\<forall>v\<in>set vs'. \<exists>a. v = Ref a \<and> length h \<le> a)"
  using assms
proof (induction vs arbitrary: xs k h)
  case Nil
  then show ?case by simp
next
  case (Cons v vs ys)
  from Cons.prems(1) obtain x xs where ys: "ys = x # xs" and rv: "read_item h v = Some x"
    and rvs: "list_all2 (\<lambda>v x. read_item h v = Some x) vs xs"
    by (auto simp: list_all2_Cons1)
  from copyWithMetadata_correct[OF rv Cons.prems(2), of "clock k"] obtain a h1 where
    c: "copyWithMetadata h input (clock k) v = Some (Ref a, h1)" and a: "length h \<le> a"
    and p1: "prefix h h1" and r1: "read_item h1 (Ref a) = Some (withMetadata b (clock k) x)"
    by blast
  have rvs1: "list_all2 (\<lambda>v x. read_item h1 v = Some x) vs xs"
    using rvs p1 by (rule list_all2_read_item_mono)
  have g1: "get h1 input ''includeMetadata'' = Some (Bool b)"
    using Cons.prems(2) p1 by (rule get_mono)
  from Cons.IH[OF rvs1 g1, of "Suc k"] obtain vs' h2 where
    m: "map_h input clock (Suc k) vs h1 = Some (vs', h2)" and p2: "prefix h1 h2"
    and r2: "list_all2 (\<lambda>v x. read_item h2 v = Some x) vs'
               (map (\<lambda>(k, item). withMetadata b (clock k) item) (enumerate (Suc k) xs))"
    and f2: "\<forall>v\<in>set vs'. \<exists>a. v = Ref a \<and> length h1 \<le> a"
    by blast
  have "map_h input clock k (v # vs) h = Some (Ref a # vs', h2)"
    using c m by simp
  moreover have "prefix h h2" using p1 p2 by (rule prefix_order.trans)
  moreover have "read_item h2 (Ref a) = Some (withMetadata b (clock k) x)"
    using r1 p2 by (rule read_item_mono)
  moreover have "length h \<le> length h1" using p1 by (rule prefix_length_le)
  ultimately show ?case using r2 f2 a unfolding ys by fastforce
qed

lemma input_reads:
  assumes "a < length h" and "h ! a = inputObject inp"
  shows "get h (Ref a) ''filter'' = Some (case filter' inp of None \<Rightarrow> Undefined | Some f \<Rightarrow> Str f)"
    and "get h (Ref a) ''limit'' = Some (Num (limit inp))"
    and "get h (Ref a) ''includeMetadata'' = Some (Bool (includeMetadata inp))"
  using assms
  by (simp_all add: get_def properties_def inputObject_def getProperty_def split: option.splits)

lemma filter_step:
  assumes e: "elements h1 arr = Some vs"
    and R: "list_all2 (\<lambda>v x. read_item h1 v = Some x) vs allItems"
  shows "\<exists>fi h2 vs2.
           (if truthy (case filter' inp of None \<Rightarrow> Undefined | Some f \<Rightarrow> Str f) then
                 do {
                   s \<leftarrow> toStr (case filter' inp of None \<Rightarrow> Undefined | Some f \<Rightarrow> Str f);
                   xs \<leftarrow> elements h1 arr;
                   ys \<leftarrow> filter_h (matchesFilter_h h1 s) xs;
                   Some (alloc (Arr ys) h1)
                 }
               else Some (arr, h1)) = Some (fi, h2) \<and>
           prefix h1 h2 \<and> elements h2 fi = Some vs2 \<and>
           list_all2 (\<lambda>v x. read_item h1 v = Some x) vs2 (filteredItems inp)"
proof (cases "\<exists>f. filter' inp = Some f \<and> f \<noteq> []")
  case True
  then obtain f where f: "filter' inp = Some f" "f \<noteq> []" by blast
  from filter_h_correct[OF R, of f] obtain vs' where
    v: "filter_h (matchesFilter_h h1 f) vs = Some vs'"
    and R': "list_all2 (\<lambda>v x. read_item h1 v = Some x) vs' (filter (matchesFilter f) allItems)"
    by blast
  have "elements (h1 @ [Arr vs']) (Ref (length h1)) = Some vs'" by (simp add: elements_def)
  then show ?thesis using f v R' e
    by (simp add: truthy_def toStr_def alloc_def filteredItems_def)
next
  case False
  then have "\<not> truthy (case filter' inp of None \<Rightarrow> Undefined | Some f \<Rightarrow> Str f)"
    and "filteredItems inp = allItems"
    by (auto simp: truthy_def filteredItems_def split: option.splits)
  then show ?thesis using e R by simp
qed

lemma prefix_nth: "prefix h h' \<Longrightarrow> a < length h \<Longrightarrow> h' ! a = h ! a"
  by (auto simp: prefix_def nth_append)

lemma items_eq:
  "items (exampleDataOperation clock inp) =
     map (\<lambda>(k, item). withMetadata (includeMetadata inp) (clock k) item)
         (enumerate 0 (slice (filteredItems inp) (fromInt 0) (limit inp)))"
  by (simp add: exampleDataOperation_def Let_def)

lemma store_refinement:
  assumes a: "a < length h0" and i: "h0 ! a = inputObject inp"
  shows "\<exists>r h'. exampleDataOperation_h clock (Ref a) h0 = Some (r, h') \<and>
           (get h' r ''items'' \<bind> read_items h') = Some (items (exampleDataOperation clock inp)) \<and>
           get h' r ''totalFound'' = Some (Num (fromInt (int (totalFound (exampleDataOperation clock inp))))) \<and>
           get h' r ''filters'' = Some (Ref a) \<and>
           (\<exists>vs. (get h' r ''items'' \<bind> elements h') = Some vs \<and>
                 (\<forall>v\<in>set vs. \<exists>b. v = Ref b \<and> length (snd (allItems_h h0)) \<le> b))"
proof -
  obtain arr h1 where A: "allItems_h h0 = (arr, h1)" by (cases "allItems_h h0")
  from fixture_read[OF A] obtain vs where p01: "prefix h0 h1" and e1: "elements h1 arr = Some vs"
    and R1: "list_all2 (\<lambda>v x. read_item h1 v = Some x) vs allItems"
    by blast
  let ?fv = "case filter' inp of None \<Rightarrow> Undefined | Some f \<Rightarrow> Str f"
  have a1: "a < length h1" using a prefix_length_le[OF p01] by simp
  have i1: "h1 ! a = inputObject inp" using prefix_nth[OF p01 a] i by simp
  note in1 = input_reads[OF a1 i1]
  from filter_step[OF e1 R1, of inp] obtain fi h2 vs2 where
    F: "(if truthy ?fv then
                 do {
                   s \<leftarrow> toStr ?fv;
                   xs \<leftarrow> elements h1 arr;
                   ys \<leftarrow> filter_h (matchesFilter_h h1 s) xs;
                   Some (alloc (Arr ys) h1)
                 }
               else Some (arr, h1)) = Some (fi, h2)"
    and p12: "prefix h1 h2" and e2: "elements h2 fi = Some vs2"
    and R2: "list_all2 (\<lambda>v x. read_item h1 v = Some x) vs2 (filteredItems inp)"
    by blast
  have a2: "a < length h2" using a1 prefix_length_le[OF p12] by simp
  have i2: "h2 ! a = inputObject inp" using prefix_nth[OF p12 a1] i1 by simp
  note in2 = input_reads[OF a2 i2]
  let ?l = "limit inp"
  let ?h3 = "h2 @ [Arr (slice vs2 (fromInt 0) ?l)]"
  have p13: "prefix h1 ?h3" using p12 by (auto simp: prefix_def)
  have e3: "elements ?h3 (Ref (length h2)) = Some (slice vs2 (fromInt 0) ?l)" by (simp add: elements_def)
  have R3: "list_all2 (\<lambda>v x. read_item ?h3 v = Some x) (slice vs2 (fromInt 0) ?l) (slice (filteredItems inp) (fromInt 0) ?l)"
    using list_all2_slice[OF R2] p13 by (rule list_all2_read_item_mono)
  have a3: "a < length ?h3" using a2 by simp
  have i3: "?h3 ! a = inputObject inp" using a2 i2 by (simp add: nth_append)
  note in3 = input_reads[OF a3 i3]
  from map_h_correct[OF R3 in3(3), of clock 0] obtain vs' h4 where
    M: "map_h (Ref a) clock 0 (slice vs2 (fromInt 0) ?l) ?h3 = Some (vs', h4)" and p34: "prefix ?h3 h4"
    and R4: "list_all2 (\<lambda>v x. read_item h4 v = Some x) vs' (items (exampleDataOperation clock inp))"
    and fresh: "\<forall>v\<in>set vs'. \<exists>b. v = Ref b \<and> length ?h3 \<le> b"
    unfolding items_eq by blast
  let ?h5 = "h4 @ [Arr vs']"
  let ?res = "Obj [(''items'', Ref (length h4)),
                   (''totalFound'', Num (fromInt (int (length vs2)))),
                   (''filters'', Ref a)]"
  let ?h6 = "?h5 @ [?res]"
  have op: "exampleDataOperation_h clock (Ref a) h0 = Some (Ref (length ?h5), ?h6)"
    by (simp add: exampleDataOperation_h_def A in1 F in2 toNum_def e2 alloc_def e3 M)
  have g: "get ?h6 (Ref (length ?h5)) ''items'' = Some (Ref (length h4))"
    "get ?h6 (Ref (length ?h5)) ''totalFound'' = Some (Num (fromInt (int (length vs2))))"
    "get ?h6 (Ref (length ?h5)) ''filters'' = Some (Ref a)"
    by (simp_all add: get_def properties_def getProperty_def nth_append)
  have el: "elements ?h6 (Ref (length h4)) = Some vs'" by (simp add: elements_def nth_append)
  have "list_all2 (\<lambda>v x. read_item ?h6 v = Some x) vs' (items (exampleDataOperation clock inp))"
    using R4 by (rule list_all2_read_item_mono) (simp add: prefix_def)
  then have "those (map (read_item ?h6) vs') = Some (items (exampleDataOperation clock inp))"
    by (rule those_map_list_all2)
  then have ri: "read_items ?h6 (Ref (length h4)) = Some (items (exampleDataOperation clock inp))"
    using el by (simp add: read_items_def)
  have tf: "length vs2 = totalFound (exampleDataOperation clock inp)"
    using list_all2_lengthD[OF R2] by (simp add: exampleDataOperation_def Let_def)
  have "length (snd (allItems_h h0)) \<le> length ?h3"
    using prefix_length_le[OF p13] by (simp add: A)
  with fresh have fr: "\<forall>v\<in>set vs'. \<exists>b. v = Ref b \<and> length (snd (allItems_h h0)) \<le> b"
    by (meson order_trans)
  show ?thesis
    using op g ri tf el fr by simp
qed

lemma copyWithMetadata_prefix:
  "copyWithMetadata h input now v = Some (v', h') \<Longrightarrow> prefix h h'"
  by (auto simp: copyWithMetadata_def alloc_def Let_def split: Option.bind_splits if_splits)

lemma map_h_prefix: "map_h input clock k vs h = Some (vs', h') \<Longrightarrow> prefix h h'"
proof (induction vs arbitrary: k h vs' h')
  case Nil
  then show ?case by simp
next
  case (Cons v vs)
  from Cons.prems obtain y h1 ys where c: "copyWithMetadata h input (clock k) v = Some (y, h1)"
    and m: "map_h input clock (Suc k) vs h1 = Some (ys, h')"
    by (auto split: Option.bind_splits)
  from c have "prefix h h1" by (rule copyWithMetadata_prefix)
  moreover from m have "prefix h1 h'" by (rule Cons.IH)
  ultimately show ?case by (rule prefix_order.trans)
qed

lemma allItems_h_prefix: "prefix h0 (snd (allItems_h h0))"
  by (simp add: allItems_h_def alloc_def Let_def)

lemma store_frame:
  assumes "exampleDataOperation_h clock input h0 = Some (r, h')"
  shows "prefix (snd (allItems_h h0)) h'"
proof -
  obtain arr h1 where A: "allItems_h h0 = (arr, h1)" by (cases "allItems_h h0")
  have "prefix h1 h'"
    using assms A
    by (auto simp: exampleDataOperation_h_def alloc_def
             split: Option.bind_splits if_splits dest!: map_h_prefix elim!: prefixE)
  then show ?thesis by (simp add: A)
qed

text \<open>
  The JSON tree of the functional result has the keys in the order of the
  result object in the store: with \<open>includeMetadata\<close>, where \<open>metadata\<close> is
  the last key of the first two items and the fifth key of the third, without
  it, and with a filter.
\<close>

lemma json_of_result_store_metadata:
  "(case exampleDataOperation_h fixedClock (Ref 0) [inputObject metadataInput] of
      None \<Rightarrow> None
    | Some (r, h) \<Rightarrow> json_of_store 8 h r) =
   Some (json_of_result (exampleDataOperation fixedClock metadataInput))"
  by code_simp

lemma json_of_result_store_plain:
  "(case exampleDataOperation_h fixedClock (Ref 0) [inputObject largeLimitInput] of
      None \<Rightarrow> None
    | Some (r, h) \<Rightarrow> json_of_store 8 h r) =
   Some (json_of_result (exampleDataOperation fixedClock largeLimitInput))"
  by code_simp

lemma json_of_result_store_filter:
  "(case exampleDataOperation_h fixedClock (Ref 0) [inputObject demoInput] of
      None \<Rightarrow> None
    | Some (r, h) \<Rightarrow> json_of_store 8 h r) =
   Some (json_of_result (exampleDataOperation fixedClock demoInput))"
  by code_simp

lemma metadata_key_order:
  "map (\<lambda>x. case x of JObject ps \<Rightarrow> map fst ps | _ \<Rightarrow> [])
     (map json_of_item (items (exampleDataOperation fixedClock metadataInput))) =
   [''id'', ''title'', ''description'', ''category'', ''createdAt'', ''updatedAt'', ''metadata''] #
   [''id'', ''title'', ''description'', ''category'', ''createdAt'', ''updatedAt'', ''metadata''] #
   [''id'', ''title'', ''description'', ''category'', ''metadata'', ''createdAt'', ''updatedAt''] # []"
  by code_simp

text \<open>
  C9. No object of the store is changed by \<open>exampleDataOperation\<close>: the store
  before the call, and the store with the fixture records built by the call
  (the metadata object of item 3 among them), are initial segments of the store
  after it. On an input object the call returns; the items it returns are new
  objects, which read back as the items of the functional model, with
  \<open>totalFound\<close> and the input as there. Without \<open>includeMetadata\<close> the result
  does not depend on the clock. With it the result contains the clock reading,
  so the operation is not a function of its input and the fixture alone.
\<close>

theorem fixture_not_mutated:
  "(exampleDataOperation_h clock input h0 = Some (r, h') \<longrightarrow>
      prefix h0 h' \<and> prefix (snd (allItems_h h0)) h') \<and>
   (a < length h0 \<and> h0 ! a = inputObject inp \<longrightarrow>
      (\<exists>r h'. exampleDataOperation_h clock (Ref a) h0 = Some (r, h') \<and>
         (get h' r ''items'' \<bind> read_items h') = Some (items (exampleDataOperation clock inp)) \<and>
         get h' r ''totalFound'' = Some (Num (fromInt (int (totalFound (exampleDataOperation clock inp))))) \<and>
         get h' r ''filters'' = Some (Ref a) \<and>
         (\<exists>vs. (get h' r ''items'' \<bind> elements h') = Some vs \<and>
               (\<forall>v\<in>set vs. \<exists>b. v = Ref b \<and> length (snd (allItems_h h0)) \<le> b)))) \<and>
   (\<not> includeMetadata inp \<longrightarrow>
      exampleDataOperation clock' inp = exampleDataOperation clock inp)"
proof (intro conjI impI)
  assume s: "exampleDataOperation_h clock input h0 = Some (r, h')"
  then show f: "prefix (snd (allItems_h h0)) h'" by (rule store_frame)
  from allItems_h_prefix f show "prefix h0 h'" by (rule prefix_order.trans)
next
  assume "a < length h0 \<and> h0 ! a = inputObject inp"
  then show "\<exists>r h'. exampleDataOperation_h clock (Ref a) h0 = Some (r, h') \<and>
         (get h' r ''items'' \<bind> read_items h') = Some (items (exampleDataOperation clock inp)) \<and>
         get h' r ''totalFound'' = Some (Num (fromInt (int (totalFound (exampleDataOperation clock inp))))) \<and>
         get h' r ''filters'' = Some (Ref a) \<and>
         (\<exists>vs. (get h' r ''items'' \<bind> elements h') = Some vs \<and>
               (\<forall>v\<in>set vs. \<exists>b. v = Ref b \<and> length (snd (allItems_h h0)) \<le> b))"
    using store_refinement[of a h0 inp clock] by blast
next
  assume "\<not> includeMetadata inp"
  then show "exampleDataOperation clock' inp = exampleDataOperation clock inp"
    by (simp add: exampleDataOperation_def Let_def withMetadata_def case_prod_unfold)
qed

theorem fixture_not_mutated_witness:
  "0 < length [inputObject metadataInput] \<and>
   [inputObject metadataInput] ! 0 = inputObject metadataInput \<and>
   (\<exists>r h'. exampleDataOperation_h fixedClock (Ref 0) [inputObject metadataInput] = Some (r, h') \<and>
      prefix [inputObject metadataInput] h' \<and>
      prefix (snd (allItems_h [inputObject metadataInput])) h' \<and>
      (get h' r ''items'' \<bind> read_items h') =
        Some (items (exampleDataOperation fixedClock metadataInput))) \<and>
   \<not> includeMetadata noFilterInput \<and>
   exampleDataOperation laterClock noFilterInput = exampleDataOperation fixedClock noFilterInput"
proof -
  let ?h0 = "[inputObject metadataInput]"
  have a: "0 < length ?h0 \<and> ?h0 ! 0 = inputObject metadataInput" by simp
  have n: "\<not> includeMetadata noFilterInput" by (simp add: noFilterInput_def)
  from fixture_not_mutated[of fixedClock "Ref 0" ?h0 _ _ 0 metadataInput] a obtain r h' where
    s: "exampleDataOperation_h fixedClock (Ref 0) ?h0 = Some (r, h')"
    and i: "(get h' r ''items'' \<bind> read_items h') =
              Some (items (exampleDataOperation fixedClock metadataInput))"
    by blast
  from fixture_not_mutated[of fixedClock "Ref 0" ?h0 r h' 0 noFilterInput laterClock] s n
  have "prefix ?h0 h'" "prefix (snd (allItems_h ?h0)) h'"
    "exampleDataOperation laterClock noFilterInput = exampleDataOperation fixedClock noFilterInput"
    by blast+
  with a n s i show ?thesis by blast
qed

text \<open>With \<open>includeMetadata\<close> a later call returns a different result.\<close>

theorem result_depends_on_clock_counterexample:
  "exampleDataOperation laterClock metadataInput \<noteq> exampleDataOperation fixedClock metadataInput"
proof
  assume "exampleDataOperation laterClock metadataInput = exampleDataOperation fixedClock metadataInput"
  then have "map metadata (items (exampleDataOperation laterClock metadataInput)) =
             map metadata (items (exampleDataOperation fixedClock metadataInput))"
    by simp
  moreover have "map metadata (items (exampleDataOperation laterClock metadataInput)) \<noteq>
                 map metadata (items (exampleDataOperation fixedClock metadataInput))"
    by code_simp
  ultimately show False by simp
qed

text \<open>
  C10. \<open>exampleDataOperation\<close> checks no bound on the limit and returns for
  every input: it is a total function, and on the store it throws no
  \<open>TypeError\<close> for any input object. \<open>slice\<close> cuts off the fraction of the
  limit, toward zero. When that gives 0, as it does for \<open>NaN\<close> and for every
  limit strictly between -1 and 1, no item is returned; when it gives a negative
  integer \<open>- k\<close>, the matched items without the last \<open>k\<close> of them, and none
  for \<open>-Infinity\<close>; when it gives at least the number of matched items, or
  for \<open>Infinity\<close>, all of them. A whole limit is not changed by the cut.
  \<open>totalFound\<close> is the number of matched items in every case.
\<close>

theorem limit_outside_schema_range:
  "(ToIntegerOrInfinity (limit inp) = Integer 0 \<longrightarrow> items (exampleDataOperation clock inp) = []) \<and>
   (ToIntegerOrInfinity (limit inp) = MinusInfinity \<longrightarrow> items (exampleDataOperation clock inp) = []) \<and>
   (ToIntegerOrInfinity (limit inp) = Integer n \<and> n < 0 \<longrightarrow>
      map core (items (exampleDataOperation clock inp)) =
        map core (take (length (filteredItems inp) - nat (- n)) (filteredItems inp)) \<and>
      (\<not> includeMetadata inp \<longrightarrow>
         items (exampleDataOperation clock inp) =
           take (length (filteredItems inp) - nat (- n)) (filteredItems inp))) \<and>
   (ToIntegerOrInfinity (limit inp) = PlusInfinity \<or>
    ToIntegerOrInfinity (limit inp) = Integer n \<and> int (length (filteredItems inp)) \<le> n \<longrightarrow>
      map core (items (exampleDataOperation clock inp)) = map core (filteredItems inp)) \<and>
   ToIntegerOrInfinity (fromInt i) = Integer i \<and>
   ToIntegerOrInfinity NaN = Integer 0 \<and>
   (lessThan' (fromInt (- 1)) x \<and> lessThan' x (fromInt 1) \<longrightarrow> ToIntegerOrInfinity x = Integer 0) \<and>
   totalFound (exampleDataOperation clock inp) = length (filteredItems inp) \<and>
   (a < length h0 \<and> h0 ! a = inputObject inp \<longrightarrow>
      exampleDataOperation_h clock (Ref a) h0 \<noteq> None)"
proof (intro conjI impI)
  assume "ToIntegerOrInfinity (limit inp) = Integer 0"
  then have "map core (items (exampleDataOperation clock inp)) = []"
    by (simp add: map_core_items slice_from_0)
  then show "items (exampleDataOperation clock inp) = []" by simp
next
  assume "ToIntegerOrInfinity (limit inp) = MinusInfinity"
  then have "map core (items (exampleDataOperation clock inp)) = []"
    by (simp add: map_core_items slice_from_0)
  then show "items (exampleDataOperation clock inp) = []" by simp
next
  assume "ToIntegerOrInfinity (limit inp) = Integer n \<and> n < 0"
  then show "map core (items (exampleDataOperation clock inp)) =
        map core (take (length (filteredItems inp) - nat (- n)) (filteredItems inp))"
    by (simp add: map_core_items slice_from_0)
next
  assume "ToIntegerOrInfinity (limit inp) = Integer n \<and> n < 0" "\<not> includeMetadata inp"
  then show "items (exampleDataOperation clock inp) =
           take (length (filteredItems inp) - nat (- n)) (filteredItems inp)"
    by (simp add: items_no_metadata slice_from_0)
next
  assume "ToIntegerOrInfinity (limit inp) = PlusInfinity \<or>
    ToIntegerOrInfinity (limit inp) = Integer n \<and> int (length (filteredItems inp)) \<le> n"
  then show "map core (items (exampleDataOperation clock inp)) = map core (filteredItems inp)"
    by (auto simp: map_core_items slice_from_0)
next
  show "ToIntegerOrInfinity (fromInt i) = Integer i" by (rule ToIntegerOrInfinity_fromInt)
next
  show "ToIntegerOrInfinity NaN = Integer 0" by (simp add: ToIntegerOrInfinity_def)
next
  assume "lessThan' (fromInt (- 1)) x \<and> lessThan' x (fromInt 1)"
  then show "ToIntegerOrInfinity x = Integer 0" by (rule truncate_fraction)
next
  show "totalFound (exampleDataOperation clock inp) = length (filteredItems inp)"
    by (rule totalFound_eq)
next
  assume "a < length h0 \<and> h0 ! a = inputObject inp"
  then show "exampleDataOperation_h clock (Ref a) h0 \<noteq> None"
    using store_refinement[of a h0 inp clock] by auto
qed

theorem limit_outside_schema_range_witness:
  "ToIntegerOrInfinity (limit zeroLimitInput) = Integer 0 \<and>
   items (exampleDataOperation fixedClock zeroLimitInput) = [] \<and>
   lessThan' (fromInt (- 1)) (limit fractionLimitInput) \<and>
   lessThan' (limit fractionLimitInput) (fromInt 1) \<and>
   ToIntegerOrInfinity (limit fractionLimitInput) = Integer 0 \<and>
   items (exampleDataOperation fixedClock fractionLimitInput) = [] \<and>
   ToIntegerOrInfinity (limit negativeLimitInput) = Integer (- 1) \<and>
   \<not> includeMetadata negativeLimitInput \<and>
   filteredItems negativeLimitInput = allItems \<and>
   items (exampleDataOperation fixedClock negativeLimitInput) = take 2 allItems \<and>
   totalFound (exampleDataOperation fixedClock negativeLimitInput) = 3 \<and>
   ToIntegerOrInfinity (limit largeLimitInput) = Integer 1000 \<and>
   int (length (filteredItems largeLimitInput)) \<le> 1000 \<and>
   map core (items (exampleDataOperation fixedClock largeLimitInput)) = map core allItems \<and>
   0 < length [inputObject negativeLimitInput] \<and>
   [inputObject negativeLimitInput] ! 0 = inputObject negativeLimitInput \<and>
   exampleDataOperation_h fixedClock (Ref 0) [inputObject negativeLimitInput] \<noteq> None"
proof -
  have z: "limit zeroLimitInput = fromInt 0" by (simp add: zeroLimitInput_def)
  have n: "limit negativeLimitInput = fromInt (- 1)" "\<not> includeMetadata negativeLimitInput"
    "filteredItems negativeLimitInput = allItems"
    by (simp_all add: negativeLimitInput_def filteredItems_def)
  have l: "filteredItems largeLimitInput = allItems" "limit largeLimitInput = fromInt 1000"
    by (simp_all add: largeLimitInput_def filteredItems_def)
  have f: "lessThan' (fromInt (- 1)) (limit fractionLimitInput)"
    "lessThan' (limit fractionLimitInput) (fromInt 1)"
    by (simp_all add: fractionLimitInput_def lessThan'_def Number_lessThan_fromInt finiteValue_def)
  have a: "length allItems = 3" by (simp add: allItems_def)
  note t = limit_outside_schema_range[of zeroLimitInput fixedClock _ 0 "limit fractionLimitInput"]
  from t z have tz: "ToIntegerOrInfinity (limit zeroLimitInput) = Integer 0" by simp
  from t f have tf: "ToIntegerOrInfinity (limit fractionLimitInput) = Integer 0" by blast
  from t tz have iz: "items (exampleDataOperation fixedClock zeroLimitInput) = []" by blast
  from limit_outside_schema_range[of fractionLimitInput fixedClock] tf
  have i0: "items (exampleDataOperation fixedClock fractionLimitInput) = []" by blast
  note u = limit_outside_schema_range[of negativeLimitInput fixedClock "- 1" "- 1" _ 0
      "[inputObject negativeLimitInput]"]
  from u n(1) have tn: "ToIntegerOrInfinity (limit negativeLimitInput) = Integer (- 1)" by simp
  from u tn n(2) have "items (exampleDataOperation fixedClock negativeLimitInput) =
      take (length (filteredItems negativeLimitInput) - nat (- (- 1))) (filteredItems negativeLimitInput)"
    by simp
  then have i1: "items (exampleDataOperation fixedClock negativeLimitInput) = take 2 allItems"
    by (simp add: n(3) a)
  from u have t1: "totalFound (exampleDataOperation fixedClock negativeLimitInput) = 3"
    by (simp add: n(3) a)
  from u have s1: "exampleDataOperation_h fixedClock (Ref 0) [inputObject negativeLimitInput] \<noteq> None"
    by simp
  note v = limit_outside_schema_range[of largeLimitInput fixedClock 1000 1000]
  from v l(2) have tl: "ToIntegerOrInfinity (limit largeLimitInput) = Integer 1000" by simp
  have ll: "int (length (filteredItems largeLimitInput)) \<le> 1000" by (simp add: l(1) a)
  from v tl ll have il: "map core (items (exampleDataOperation fixedClock largeLimitInput)) = map core allItems"
    by (simp add: l(1))
  show ?thesis
    using tz iz f tf i0 tn n(2,3) i1 t1 tl ll il s1 by simp
qed

text \<open>
  With the limit -0.5 no item is returned: not the three matched items, and not
  the first two of them, which a negative limit of size one half would leave
  after rounding it down or up.
\<close>

theorem fraction_limit_counterexample:
  "lessThan' (limit fractionLimitInput) (fromInt 0) \<and>
   length (filteredItems fractionLimitInput) = 3 \<and>
   items (exampleDataOperation fixedClock fractionLimitInput) = [] \<and>
   items (exampleDataOperation fixedClock fractionLimitInput) \<noteq>
     take (length (filteredItems fractionLimitInput) - 0) (filteredItems fractionLimitInput) \<and>
   items (exampleDataOperation fixedClock fractionLimitInput) \<noteq>
     take (length (filteredItems fractionLimitInput) - 1) (filteredItems fractionLimitInput)"
proof -
  have l: "lessThan' (limit fractionLimitInput) (fromInt 0)"
    by (simp add: fractionLimitInput_def lessThan'_def Number_lessThan_fromInt finiteValue_def)
  have f: "filteredItems fractionLimitInput = allItems"
    by (simp add: fractionLimitInput_def filteredItems_def)
  have i: "items (exampleDataOperation fixedClock fractionLimitInput) = []"
    by (simp add: items_no_metadata fractionLimitInput_def filteredItems_def slice_from_0
          ToIntegerOrInfinity_def truncate'_def)
  show ?thesis using l by (simp add: i f allItems_def)
qed

section \<open>Serialising and parsing\<close>



lemma skipWhitespace_Nil [simp]: "skipWhitespace [] = []"
  by (simp add: skipWhitespace_def)

lemma of_char_digit: "(d::nat) < 10 \<Longrightarrow> of_char (char_of (48 + d)) = (48 + d :: nat)"
  by (simp add: of_char_of)

lemma isDigit_digit: "d < 10 \<Longrightarrow> isDigit (char_of (48 + (d::nat)))"
  by (simp add: isDigit_def of_char_digit)


lemma digits_isDigit: "c \<in> set (digits n) \<Longrightarrow> isDigit c"
proof (induction n arbitrary: c rule: digits.induct)
  case (1 n)
  show ?case
  proof (cases "n < 10")
    case True
    with "1.prems" show ?thesis by (subst (asm) digits.simps) (simp add: isDigit_digit)
  next
    case False
    with "1.prems" have "c \<in> set (digits (n div 10)) \<or> c = char_of (48 + n mod 10)"
      by (subst (asm) digits.simps) auto
    then show ?thesis using "1.IH"[OF False] by (auto simp: isDigit_digit)
  qed
qed

lemma digits_not_Nil: "digits n \<noteq> []"
  by (subst digits.simps) simp





lemma length_digits_zero: "length (digits 0) = 1"
  by (subst digits.simps) simp

lemma takeWhile_digits:
  "r = [] \<or> \<not> isDigit (hd r) \<Longrightarrow> takeWhile isDigit (digits n @ r) = digits n"
  by (cases r) (auto simp: takeWhile_append digits_isDigit takeWhile_eq_all_conv)

lemma dropWhile_digits:
  "r = [] \<or> \<not> isDigit (hd r) \<Longrightarrow> dropWhile isDigit (digits n @ r) = r"
  by (cases r) (auto simp: dropWhile_append digits_isDigit dropWhile_eq_Nil_conv)

lemma minus_not_digit: "\<not> isDigit CHR ''-''"
  by (simp add: isDigit_def)

lemma hd_digits_not_minus: "hd (digits n) \<noteq> CHR ''-''"
proof -
  have "hd (digits n) \<in> set (digits n)" using digits_not_Nil by (rule hd_in_set)
  then have "isDigit (hd (digits n))" by (rule digits_isDigit)
  then show ?thesis using minus_not_digit by auto
qed
































lemma isDigit_startsValue: "isDigit c \<Longrightarrow> startsValue (c # s)"
  by (auto simp: startsValue_def isDigit_def isWhitespace_def)

lemma startsValue_digits: "startsValue (digits n @ r)"
proof -
  obtain c cs where d: "digits n = c # cs" using digits_not_Nil[of n] by (cases "digits n") auto
  then have "isDigit c" using digits_isDigit[of c n] by simp
  then show ?thesis using d by (simp add: isDigit_startsValue)
qed





lemma follows_simps [simp]:
  "follows []" "follows (CHR '','' # s)" "follows (CHR '']'' # s)" "follows (CHR ''}'' # s)"
  by (simp_all add: follows_def)














lemma startsValue_case:
  assumes "startsValue t"
  shows "(case t of [] \<Rightarrow> None | d # ds \<Rightarrow> if d = CHR '']'' then A ds else B (d # ds)) = B t"
    and "(case t of [] \<Rightarrow> None | d # ds \<Rightarrow> if d = CHR ''}'' then A ds else B (d # ds)) = B t"
  using assms by (cases t; simp add: startsValue_def)+











lemma filter_ws_digits: "filter isWhitespace (digits n) = []"
proof -
  have "\<not> isWhitespace c" if "c \<in> set (digits n)" for c
    using digits_isDigit[OF that] by (auto simp: isDigit_def isWhitespace_def)
  then show ?thesis by (simp add: filter_empty_conv)
qed





lemma ws_punctuation [simp]:
  "\<not> isWhitespace CHR ''[''" "\<not> isWhitespace CHR '']''" "\<not> isWhitespace CHR ''{''"
  "\<not> isWhitespace CHR ''}''" "\<not> isWhitespace CHR '':''" "\<not> isWhitespace CHR '',''"
  by (simp_all add: isWhitespace_def)




lemma Number_toString_examples:
  "Number_toString (Finite 1 21) = ''1e+21''"
  "Number_toString (Finite 1 20) = ''100000000000000000000''"
  "Number_toString (fromInt (- 1200)) = ''-1200''"
  "Number_toString (Finite (- 5) (- 1)) = ''-0.5''"
  "Number_toString (Finite 125 (- 1)) = ''12.5''"
  "Number_toString (Finite 1 (- 6)) = ''0.000001''"
  "Number_toString (Finite 15 (- 8)) = ''1.5e-7''"
  "Number_toString (Finite 10 (- 1)) = ''1''"
  by code_simp+





section \<open>The handlers\<close>

text \<open>
  C5. The handler of \<open>get_data\<close> catches what the awaited operation throws and
  answers with one text block: \<open>Error: \<close> and the message of an \<open>Error\<close>, or
  \<open>Error: Unknown error occurred\<close> for any other thrown value; with
  \<open>exampleDataOperation\<close> it always answers with one text block. The handler of
  \<open>get_system_info\<close> catches nothing: it answers with one text block when the
  time zone is resolved, and what the runtime throws leaves the handler.
\<close>

theorem handler_error_translation:
  "(operation \<lparr> limit = limit input, filter' = filter' input, includeMetadata = includeMetadata input \<rparr> = Inl error \<longrightarrow>
      get_data_handler_with operation input =
        Inr \<lparr> content = [\<lparr> type' = ''text'',
                           text' = ''Error: '' @ (case error of Error message \<Rightarrow> message
                                                   | NonError v \<Rightarrow> ''Unknown error occurred'') \<rparr>] \<rparr>) \<and>
   (\<exists>t. get_data_handler clock input = Inr \<lparr> content = [\<lparr> type' = ''text'', text' = t \<rparr>] \<rparr>) \<and>
   (resolvedTimeZone rt = Inr tz \<longrightarrow>
      (\<exists>t. get_system_info_handler rt sinput = Inr \<lparr> content = [\<lparr> type' = ''text'', text' = t \<rparr>] \<rparr>)) \<and>
   (resolvedTimeZone rt = Inl error' \<longrightarrow> get_system_info_handler rt sinput = Inl error')"
proof (intro conjI impI)
  assume "operation \<lparr> limit = limit input, filter' = filter' input, includeMetadata = includeMetadata input \<rparr> = Inl error"
  then show "get_data_handler_with operation input =
        Inr \<lparr> content = [\<lparr> type' = ''text'',
                           text' = ''Error: '' @ (case error of Error message \<Rightarrow> message
                                                   | NonError v \<Rightarrow> ''Unknown error occurred'') \<rparr>] \<rparr>"
    by (simp add: get_data_handler_with_def errorText_def)
next
  show "\<exists>t. get_data_handler clock input = Inr \<lparr> content = [\<lparr> type' = ''text'', text' = t \<rparr>] \<rparr>"
    by (simp add: get_data_handler_def get_data_handler_with_def)
next
  assume "resolvedTimeZone rt = Inr tz"
  then show "\<exists>t. get_system_info_handler rt sinput = Inr \<lparr> content = [\<lparr> type' = ''text'', text' = t \<rparr>] \<rparr>"
    by (simp add: get_system_info_handler_def Let_def)
next
  assume "resolvedTimeZone rt = Inl error'"
  then show "get_system_info_handler rt sinput = Inl error'"
    by (simp add: get_system_info_handler_def Let_def)
qed

theorem handler_error_translation_witness:
  "failingOperation \<lparr> limit = limit defaultInput, filter' = filter' defaultInput,
                      includeMetadata = includeMetadata defaultInput \<rparr> =
     Inl (Error ''data source unavailable'') \<and>
   get_data_handler_with failingOperation defaultInput =
     Inr \<lparr> content = [\<lparr> type' = ''text'', text' = ''Error: data source unavailable'' \<rparr>] \<rparr> \<and>
   rejectingOperation \<lparr> limit = limit defaultInput, filter' = filter' defaultInput,
                        includeMetadata = includeMetadata defaultInput \<rparr> =
     Inl (NonError (JString ''timeout'')) \<and>
   get_data_handler_with rejectingOperation defaultInput =
     Inr \<lparr> content = [\<lparr> type' = ''text'', text' = ''Error: Unknown error occurred'' \<rparr>] \<rparr> \<and>
   resolvedTimeZone exampleRuntime = Inr ''Europe/Berlin'' \<and>
   (\<exists>t. get_system_info_handler exampleRuntime \<lparr> info = Version \<rparr> =
          Inr \<lparr> content = [\<lparr> type' = ''text'', text' = t \<rparr>] \<rparr>) \<and>
   resolvedTimeZone runtimeWithoutIntl = Inl (Error ''Intl is not defined'') \<and>
   get_system_info_handler runtimeWithoutIntl \<lparr> info = Version \<rparr> = Inl (Error ''Intl is not defined'')"
proof -
  have f: "failingOperation \<lparr> limit = limit defaultInput, filter' = filter' defaultInput,
                      includeMetadata = includeMetadata defaultInput \<rparr> =
             Inl (Error ''data source unavailable'')"
    by (simp add: failingOperation_def)
  have r: "rejectingOperation \<lparr> limit = limit defaultInput, filter' = filter' defaultInput,
                        includeMetadata = includeMetadata defaultInput \<rparr> =
             Inl (NonError (JString ''timeout''))"
    by (simp add: rejectingOperation_def)
  have z: "resolvedTimeZone exampleRuntime = Inr ''Europe/Berlin''"
    by (simp add: exampleRuntime_def)
  have w: "resolvedTimeZone runtimeWithoutIntl = Inl (Error ''Intl is not defined'')"
    by (simp add: runtimeWithoutIntl_def)
  show ?thesis
    using handler_error_translation[of failingOperation defaultInput "Error ''data source unavailable''"
            fixedClock exampleRuntime "''Europe/Berlin''" "\<lparr> info = Version \<rparr>"
            "Error ''Intl is not defined''"]
          handler_error_translation[of rejectingOperation defaultInput "NonError (JString ''timeout'')"
            fixedClock runtimeWithoutIntl "''Europe/Berlin''" "\<lparr> info = Version \<rparr>"
            "Error ''Intl is not defined''"]
          f r z w
    by simp
qed

text \<open>In a runtime without \<open>Intl\<close> the handler of \<open>get_system_info\<close> throws.\<close>

theorem system_info_raise_not_caught_counterexample:
  "get_system_info_handler runtimeWithoutIntl \<lparr> info = All \<rparr> = Inl (Error ''Intl is not defined'')"
  by (simp add: get_system_info_handler_def runtimeWithoutIntl_def Let_def)

text \<open>
  C7. For \<open>date\<close> the first line of the answer starts with \<open>Current date: \<close>
  and no line starts with \<open>Timezone:\<close>. Without an argument the schema gives
  \<open>all\<close>, and the lines of the answer are the date, the time, the time zone,
  the version, an empty line and the guidance sentence, provided the texts read
  from the runtime contain no line break.
\<close>

theorem system_info_lines:
  "(info input = Date \<and> resolvedTimeZone rt = Inr tz \<longrightarrow>
      (\<exists>t. get_system_info_handler rt input = Inr \<lparr> content = [\<lparr> type' = ''text'', text' = t \<rparr>] \<rparr> \<and>
           prefix ''Current date: '' (hd (split CHR 0x0A t)) \<and>
           (\<forall>l\<in>set (split CHR 0x0A t). \<not> prefix ''Timezone:'' l))) \<and>
   (get_system_info_schema \<lparr> info_arg = None \<rparr> = Some input \<and> resolvedTimeZone rt = Inr tz \<and>
    CHR 0x0A \<notin> set (nowISOString rt) \<and> CHR 0x0A \<notin> set tz \<longrightarrow>
      (\<exists>t. get_system_info_handler rt input = Inr \<lparr> content = [\<lparr> type' = ''text'', text' = t \<rparr>] \<rparr> \<and>
           split CHR 0x0A t =
             [''Current date: '' @ hd (split CHR ''T'' (nowISOString rt)),
              ''Current time: '' @ nowISOString rt,
              ''Timezone: '' @ tz,
              ''Server version: 0.1.0'',
              [],
              ''Use this information for date filtering and context.'']))"
proof (intro conjI impI)
  assume a: "info input = Date \<and> resolvedTimeZone rt = Inr tz"
  let ?d = "hd (split CHR ''T'' (nowISOString rt))"
  let ?t = "''Current date: '' @ ?d"
  have h: "get_system_info_handler rt input = Inr \<lparr> content = [\<lparr> type' = ''text'', text' = ?t \<rparr>] \<rparr>"
    using a by (simp add: get_system_info_handler_def Let_def)
  have noT: "CHR ''T'' \<notin> set ?t" using hd_split_no_sep[of "CHR ''T''" "nowISOString rt"] by simp
  have p: "prefix ''Current date: '' (hd (split CHR 0x0A ?t))"
    using hd_split_prefix[of "CHR 0x0A" "''Current date: ''" ?d] by simp
  have "\<not> prefix ''Timezone:'' l" if "l \<in> set (split CHR 0x0A ?t)" for l
  proof
    assume "prefix ''Timezone:'' l"
    then have "CHR ''T'' \<in> set l" by (rule prefix_Timezone_T)
    moreover have "set l \<subseteq> set ?t" using that by (rule split_pieces_subset)
    ultimately show False using noT by blast
  qed
  with h p show "\<exists>t. get_system_info_handler rt input = Inr \<lparr> content = [\<lparr> type' = ''text'', text' = t \<rparr>] \<rparr> \<and>
           prefix ''Current date: '' (hd (split CHR 0x0A t)) \<and>
           (\<forall>l\<in>set (split CHR 0x0A t). \<not> prefix ''Timezone:'' l)"
    by blast
next
  assume a: "get_system_info_schema \<lparr> info_arg = None \<rparr> = Some input \<and> resolvedTimeZone rt = Inr tz \<and>
    CHR 0x0A \<notin> set (nowISOString rt) \<and> CHR 0x0A \<notin> set tz"
  let ?d = "hd (split CHR ''T'' (nowISOString rt))"
  let ?ls = "[''Current date: '' @ ?d, ''Current time: '' @ nowISOString rt, ''Timezone: '' @ tz,
              ''Server version: 0.1.0'', [], ''Use this information for date filtering and context.'']"
  from a have i: "info input = All" by (auto simp: get_system_info_schema_def)
  have h: "get_system_info_handler rt input = Inr \<lparr> content = [\<lparr> type' = ''text'', text' = join [CHR 0x0A] ?ls \<rparr>] \<rparr>"
    using a i by (simp add: get_system_info_handler_def Let_def)
  have d: "CHR 0x0A \<notin> set ?d" using hd_split_subset[of "CHR ''T''" "nowISOString rt"] a by blast
  have "\<forall>x\<in>set ?ls. CHR 0x0A \<notin> set x" using d a by simp
  then have "split CHR 0x0A (join [CHR 0x0A] ?ls) = ?ls"
    by (rule split_join[rotated]) simp
  with h show "\<exists>t. get_system_info_handler rt input = Inr \<lparr> content = [\<lparr> type' = ''text'', text' = t \<rparr>] \<rparr> \<and>
           split CHR 0x0A t = ?ls"
    by blast
qed

lemma hd_split_example: "hd (split CHR ''T'' ''2024-06-01T12:00:00.000Z'') = ''2024-06-01''"
  by code_simp

theorem system_info_lines_witness:
  "get_system_info_schema \<lparr> info_arg = None \<rparr> = Some \<lparr> info = All \<rparr> \<and>
   resolvedTimeZone exampleRuntime = Inr ''Europe/Berlin'' \<and>
   CHR 0x0A \<notin> set (nowISOString exampleRuntime) \<and> CHR 0x0A \<notin> set ''Europe/Berlin'' \<and>
   (\<exists>t. get_system_info_handler exampleRuntime \<lparr> info = All \<rparr> = Inr \<lparr> content = [\<lparr> type' = ''text'', text' = t \<rparr>] \<rparr> \<and>
        split CHR 0x0A t =
          [''Current date: 2024-06-01'',
           ''Current time: 2024-06-01T12:00:00.000Z'',
           ''Timezone: Europe/Berlin'',
           ''Server version: 0.1.0'',
           [],
           ''Use this information for date filtering and context.'']) \<and>
   (\<exists>t. get_system_info_handler exampleRuntime \<lparr> info = Date \<rparr> = Inr \<lparr> content = [\<lparr> type' = ''text'', text' = t \<rparr>] \<rparr> \<and>
        prefix ''Current date: '' (hd (split CHR 0x0A t)) \<and>
        (\<forall>l\<in>set (split CHR 0x0A t). \<not> prefix ''Timezone:'' l))"
proof -
  have s: "get_system_info_schema \<lparr> info_arg = None \<rparr> = Some \<lparr> info = All \<rparr>"
    by (simp add: get_system_info_schema_def)
  have z: "resolvedTimeZone exampleRuntime = Inr ''Europe/Berlin''"
    by (simp add: exampleRuntime_def)
  have n: "CHR 0x0A \<notin> set (nowISOString exampleRuntime)" "CHR 0x0A \<notin> set ''Europe/Berlin''"
    by (simp_all add: exampleRuntime_def)
  have i: "nowISOString exampleRuntime = ''2024-06-01T12:00:00.000Z''"
    by (simp add: exampleRuntime_def)
  show ?thesis
    using system_info_lines[of "\<lparr> info = All \<rparr>" exampleRuntime "''Europe/Berlin''"]
          system_info_lines[of "\<lparr> info = Date \<rparr>" exampleRuntime "''Europe/Berlin''"] s z n
    by (simp add: i hd_split_example)
qed

end
